theory Spec2Isabelle
  imports Complex_Main
begin

section \<open>The dynamic decoding loop of \<^verbatim>\<open>njunmt/decoders/decoder.py\<close>\<close>

text \<open>
  The theory embeds \<^verbatim>\<open>dynamic_decode\<close> and its loop body \<^verbatim>\<open>body_traininfer\<close>.
  A tensor whose leading dimension is the lane dimension (batch, or batch times beam) is
  a list with one entry per lane. The decoder, the feedback helper and the target
  modality are collaborators handed to \<^verbatim>\<open>dynamic_decode\<close>; they are records of
  functions here, and every theorem holds for all of them. \<^verbatim>\<open>float32\<close> values are
  \<^typ>\<open>real\<close>. \<^verbatim>\<open>int32\<close> values are \<^typ>\<open>int\<close>; the one \<^verbatim>\<open>int32\<close>
  computation of the loop itself, \<^verbatim>\<open>time + 1\<close>, wraps around as the machine addition
  does.
\<close>

subsection \<open>Modes, errors, named tuples\<close>

datatype ModeKeys = TRAIN | EVAL | INFER

text \<open>
  What stops a decode: \<open>InvalidArgument\<close> is an index or a shape that an operation
  rejects, \<open>StructureMismatch\<close> is \<^verbatim>\<open>nest.map_structure\<close> on two structures with
  different fields, \<open>AlreadyWritten\<close> and \<open>NotWritten\<close> are a \<^verbatim>\<open>TensorArray\<close>
  slot written twice or read before it was written, \<open>IndexError\<close> is \<^verbatim>\<open>args[0]\<close>
  on an empty \<^verbatim>\<open>*args\<close>, \<open>Unimplemented\<close> is the stacking of a \<^verbatim>\<open>TensorArray\<close>
  of size zero whose element shape is not known, \<open>ShapeNotInvariant\<close> is a loop
  variable whose static shape the loop body changes.
\<close>

datatype error = InvalidArgument | StructureMismatch | AlreadyWritten | NotWritten | IndexError
  | Unimplemented | ShapeNotInvariant

datatype dtype = tf_float32 | tf_int32 | tf_bool

text \<open>A \<^verbatim>\<open>collections.namedtuple\<close>: its fields in order, each with its value.\<close>

type_synonym 'a namedtuple = "(string \<times> 'a) list"

subsection \<open>TensorFlow operations the loop uses\<close>

text \<open>\<^verbatim>\<open>tf.reduce_all\<close> of a rank-1 boolean tensor; it is true of the empty tensor.\<close>

definition reduce_all :: "bool list \<Rightarrow> bool" where
  "reduce_all xs = list_all (\<lambda>x. x) xs"

text \<open>
  \<^verbatim>\<open>tf.logical_or\<close> of two rank-1 tensors: elementwise, a tensor of length one is
  broadcast along the other, any other pair of different lengths is refused.
\<close>

definition logical_or :: "bool list \<Rightarrow> bool list \<Rightarrow> error + bool list" where
  "logical_or xs ys =
     (if length xs = length ys then Inr (map2 (\<lambda>x y. x \<or> y) xs ys)
      else if length xs = 1 then Inr (map (\<lambda>y. hd xs \<or> y) ys)
      else if length ys = 1 then Inr (map (\<lambda>x. x \<or> hd ys) xs)
      else Inl InvalidArgument)"

text \<open>
  The value of an \<^verbatim>\<open>int32\<close> tensor that holds the result \<open>i\<close> of an addition: the
  two's complement representative of \<open>i\<close> between \<open>-2^31\<close> and \<open>2^31 - 1\<close>.
\<close>

definition int32 :: "int \<Rightarrow> int" where
  "int32 i = (i + 2 ^ 31) mod 2 ^ 32 - 2 ^ 31"

text \<open>\<^verbatim>\<open>tf.zeros_like(x, dtype=...)\<close>: one zero per lane of \<open>x\<close>.\<close>

definition zeros_like :: "'a list \<Rightarrow> ('b::zero) list" where
  "zeros_like xs = replicate (length xs) 0"

text \<open>
  The static shape that TensorFlow gives a tensor when the graph is built, before any
  value exists: its dimensions, each of them known or not, or nothing when even the rank
  is not known. A batch whose size is fed at run time has a static shape whose leading
  dimension is not known. \<^verbatim>\<open>is_fully_defined\<close> is the method of that name of
  \<^verbatim>\<open>tf.TensorShape\<close>.
\<close>

type_synonym TensorShape = "nat option list option"

definition is_fully_defined :: "TensorShape \<Rightarrow> bool" where
  "is_fully_defined shape =
     (case shape of None \<Rightarrow> False | Some dims \<Rightarrow> list_all (\<lambda>dim. dim \<noteq> None) dims)"

text \<open>
  \<^verbatim>\<open>tf.TensorArray(dtype, clear_after_read=False, size=0, dynamic_size=True)\<close>: a
  growable sequence of slots, each written at most once. \<^verbatim>\<open>write\<close> at a negative
  index is refused; \<^verbatim>\<open>write\<close> past the end grows the array, leaving the slots in
  between unwritten. No \<^verbatim>\<open>element_shape\<close> is given, so the array takes the static
  shape of the values written to it, which is the element shape handed to
  \<^verbatim>\<open>stack\<close>. \<^verbatim>\<open>stack\<close> reads every slot in index order; of an array of size zero it
  gives the empty sequence when the element shape is fully defined and is refused
  otherwise (only static shapes are supported when a zero-size array is packed). Reading
  a slot that was never written is an error here (TensorFlow versions that know the
  element shape read such a slot as zeros instead); the loop writes the slots 0, 1, 2
  and so on in order, so no buffer that \<^verbatim>\<open>dynamic_decode\<close> stacks has such a slot.
\<close>

type_synonym 'v TensorArray = "'v option list"

definition create_ta :: "dtype \<Rightarrow> 'v TensorArray" where
  "create_ta d = []"

definition ta_write :: "'v TensorArray \<Rightarrow> int \<Rightarrow> 'v \<Rightarrow> error + 'v TensorArray" where
  "ta_write ta index v =
     (if index < 0 then Inl InvalidArgument
      else if nat index < length ta then
        (case ta ! nat index of
           Some w \<Rightarrow> Inl AlreadyWritten
         | None \<Rightarrow> Inr (ta[nat index := Some v]))
      else Inr (ta @ replicate (nat index - length ta) None @ [Some v]))"

definition ta_stack :: "TensorShape \<Rightarrow> 'v TensorArray \<Rightarrow> error + 'v list" where
  "ta_stack element_shape ta =
     (if ta = [] then (if is_fully_defined element_shape then Inr [] else Inl Unimplemented)
      else if list_all (\<lambda>slot. slot \<noteq> None) ta then Inr (map the ta)
      else Inl NotWritten)"

subsection \<open>Helpers of the repository that \<^verbatim>\<open>decoder.py\<close> imports\<close>

text \<open>
  Modelled from the spec: \<^verbatim>\<open>BeamSearchStateSpec\<close> of \<^verbatim>\<open>njunmt.utils.beam_search\<close>
  is not among the sources. The spec's BeamSearchStatus is the per-step record
  {log_probs: float per lane, predicted_ids: symbol id per lane, beam_ids: parent-lane
  index per lane, lengths: int per lane}; the constructor call in \<^verbatim>\<open>body_traininfer\<close>
  names the same four fields. The record is used at three types: one step's status, the
  four buffers, and the four stacked sequences.
\<close>

record ('r, 'i) BeamSearchStateSpec =
  log_probs :: 'r
  predicted_ids :: 'i
  beam_ids :: 'i
  lengths :: 'i

text \<open>
  Modelled from the spec: \<^verbatim>\<open>BeamSearchStateSpec.dtypes()\<close> is not among the sources.
  It gives the type of each field of the status: log-probabilities are floats, symbol
  ids, parent-lane indices and lengths are integers.
\<close>

definition BeamSearchStateSpec_dtypes :: "(dtype, dtype) BeamSearchStateSpec" where
  "BeamSearchStateSpec_dtypes =
     \<lparr>log_probs = tf_float32, predicted_ids = tf_int32, beam_ids = tf_int32, lengths = tf_int32\<rparr>"

text \<open>
  Modelled from the spec: \<^verbatim>\<open>gather_states\<close> of \<^verbatim>\<open>njunmt.utils.beam_search\<close> is not
  among the sources. The spec: apply \<^verbatim>\<open>beam_ids\<close> as a gather operation to a piece of
  carried state, so that lane i after the step corresponds to parent lane
  \<^verbatim>\<open>beam_ids[i]\<close> before the step; a parent index out of range is a fatal contract
  violation.
\<close>

definition gather_states :: "'a list \<Rightarrow> int list \<Rightarrow> error + 'a list" where
  "gather_states states ids =
     (if list_all (\<lambda>b. 0 \<le> b \<and> b < int (length states)) ids
      then Inr (map (\<lambda>b. states ! nat b) ids)
      else Inl InvalidArgument)"

text \<open>
  Modelled from the spec: \<^verbatim>\<open>stack_beam_size\<close> of \<^verbatim>\<open>njunmt.utils.beam_search\<close> is
  not among the sources. The spec: at inference, the initial state and the side
  parameters are replicated (stacked) across beam-width lanes.
\<close>

definition stack_beam_size :: "'a list \<Rightarrow> nat \<Rightarrow> 'a list" where
  "stack_beam_size xs k = concat (map (replicate k) xs)"

text \<open>
  Modelled from the spec: \<^verbatim>\<open>DecoderOutputRemover\<close> of \<^verbatim>\<open>njunmt.utils.expert_utils\<close>
  is not among the sources. The spec's output schema filter derives, from the full
  named-field output schema and an optional ignore-list, the subset of fields persisted
  per step (memory-saving at inference); it computes the retained subset once, and the
  same subset sizes the buffers and filters each step's record. The docstring of
  \<^verbatim>\<open>Decoder.output_ignore_fields\<close> says the loop will not save these fields during
  inference, and \<^verbatim>\<open>Decoder.decode\<close> hands the result of a training decode to
  \<^verbatim>\<open>merge_top_features\<close> as an instance of the full \<^verbatim>\<open>output_dtype\<close>: so the
  ignore-list is applied in mode INFER, the mode being the first argument that
  \<^verbatim>\<open>dynamic_decode\<close> hands to the constructor, and every field is retained in the
  other modes. An ignore-list of \<^verbatim>\<open>None\<close> (the default of the base class) drops nothing.
\<close>

record DecoderOutputRemover =
  remover_mode :: ModeKeys
  retained_fields :: "string list"

definition DecoderOutputRemover_init ::
  "ModeKeys \<Rightarrow> string list \<Rightarrow> string list option \<Rightarrow> DecoderOutputRemover" where
  "DecoderOutputRemover_init m all_fields ignore_fields =
     \<lparr>remover_mode = m,
      retained_fields =
        (case ignore_fields of
           None \<Rightarrow> all_fields
         | Some ignored \<Rightarrow>
             if m = INFER then filter (\<lambda>f. f \<notin> set ignored) all_fields else all_fields)\<rparr>"

text \<open>
  Modelled from the spec: \<^verbatim>\<open>DecoderOutputRemover.apply\<close> is not among the sources. It
  filters a record (the output types before the loop, a step's outputs in the loop) to
  the retained fields, keeping their order.
\<close>

definition remover_apply :: "DecoderOutputRemover \<Rightarrow> 'a namedtuple \<Rightarrow> 'a namedtuple" where
  "remover_apply remover ins = filter (\<lambda>fv. fst fv \<in> set (retained_fields remover)) ins"

subsection \<open>The collaborators\<close>

text \<open>
  The feedback helper (an instance of \<^verbatim>\<open>Feedback\<close>): \<^verbatim>\<open>init_symbols()\<close> gives the
  initial finished mask and the start symbols, \<^verbatim>\<open>sample_symbols(logits, log_probs,
  finished, lengths, time)\<close> gives \<open>(sample_ids, beam_ids, next_log_probs, next_lengths)\<close>,
  \<^verbatim>\<open>next_symbols(time, sample_ids)\<close> gives the newly finished lanes and the next input
  symbols; \<^verbatim>\<open>sample_ids\<close> is \<^verbatim>\<open>None\<close> outside inference. The functions are what
  the operations that the methods build compute when the graph runs;
  \<open>sample_symbols_shapes\<close> holds the static shapes of the four tensors that
  \<^verbatim>\<open>sample_symbols\<close> returns, under the field of the beam search status that each of
  them fills.
\<close>

record 'l Feedback =
  beam_size :: nat
  init_symbols :: "bool list \<times> int list"
  sample_symbols ::
    "'l \<Rightarrow> real list \<Rightarrow> bool list \<Rightarrow> int list \<Rightarrow> int
       \<Rightarrow> int list \<times> int list \<times> real list \<times> int list"
  next_symbols :: "int \<Rightarrow> int list option \<Rightarrow> bool list \<times> int list"
  sample_symbols_shapes :: "(TensorShape, TensorShape) BeamSearchStateSpec"

text \<open>The target modality: the bottom layer embeds symbols, the top layer gives logits.\<close>

record ('x, 'f, 'l) Modality =
  targets_bottom :: "int list \<Rightarrow> int \<Rightarrow> 'x list"
  top_fn :: "'f \<Rightarrow> 'l"

text \<open>
  The abstract class \<^verbatim>\<open>Decoder\<close>: \<open>'x\<close> is one lane of the decoder input, \<open>'s\<close> one
  lane of the decoder states, \<open>'p\<close> one lane of the decoding parameters, \<open>'o\<close> the value
  of an output field at one step, \<open>'f\<close> the merged top features, \<open>'e\<close> and \<open>'b\<close> the
  encoder output and the bridge, \<open>'l\<close> the logits. \<open>step\<close> is what the operations that
  the method builds compute when the graph runs; \<open>step_shapes\<close> holds the fields of
  the output record that the method returns and the static shape of each of them.
\<close>

record ('x, 's, 'p, 'o, 'f, 'e, 'b, 'l) Decoder =
  mode :: ModeKeys
  output_dtype :: "dtype namedtuple"
  output_ignore_fields :: "string list option"
  prepare :: "'e \<Rightarrow> 'b \<Rightarrow> 'l Feedback \<Rightarrow> 's list \<times> 'p list"
  step :: "'x list \<Rightarrow> 's list \<Rightarrow> 'p list \<Rightarrow> 'o namedtuple \<times> 's list"
  step_shapes :: "TensorShape namedtuple"
  merge_top_features :: "'o namedtuple \<Rightarrow> 'f"
  inputs_prepost_processing_fn ::
    "(int \<Rightarrow> 'x list \<Rightarrow> 'x list) \<times> ('x list option \<Rightarrow> 'x list \<Rightarrow> 'x list)"

text \<open>What the base class returns from \<^verbatim>\<open>inputs_prepost_processing_fn\<close>: two pass-throughs.\<close>

definition default_prepost_processing_fn ::
  "(int \<Rightarrow> 'x list \<Rightarrow> 'x list) \<times> ('x list option \<Rightarrow> 'x list \<Rightarrow> 'x list)" where
  "default_prepost_processing_fn =
     ((\<lambda>t inputs0. inputs0), (\<lambda>prev_inputs predicted_inputs. predicted_inputs))"

definition compute_logits ::
  "('x, 's, 'p, 'o, 'f, 'e, 'b, 'l) Decoder \<Rightarrow> ('x, 'f, 'l) Modality \<Rightarrow> 'o namedtuple \<Rightarrow> 'l" where
  "compute_logits decoder target_modality decoder_output =
     top_fn target_modality (merge_top_features decoder decoder_output)"

definition embed_words :: "('x, 'f, 'l) Modality \<Rightarrow> int list \<Rightarrow> int \<Rightarrow> 'x list" where
  "embed_words target_modality symbols t = targets_bottom target_modality symbols t"

subsection \<open>The loop variables\<close>

text \<open>
  \<^verbatim>\<open>loop_vars\<close>: time, inputs, decoder states, the output buffers, the finished mask,
  and \<^verbatim>\<open>*args\<close>: absent outside inference, \<open>(log_probs, lengths, infer_status_ta)\<close>
  in mode INFER.
\<close>

type_synonym infer_status_ta =
  "(real list TensorArray, int list TensorArray) BeamSearchStateSpec"

record ('x, 's, 'o) loop_vars =
  time :: int
  inputs :: "'x list"
  decoder_states :: "'s list"
  outputs_ta :: "'o TensorArray namedtuple"
  finished :: "bool list"
  args :: "(real list \<times> int list \<times> infer_status_ta) option"

subsection \<open>The loop body\<close>

text \<open>
  \<^verbatim>\<open>nest.map_structure(lambda ta, out: ta.write(time, out), outputs_ta, outs)\<close>: the
  two named tuples must have the same fields; every buffer gets its field's value at
  slot \<open>t\<close>.
\<close>

fun map_structure_write ::
  "int \<Rightarrow> 'o TensorArray namedtuple \<Rightarrow> 'o namedtuple \<Rightarrow> error + 'o TensorArray namedtuple" where
  "map_structure_write t [] [] = Inr []"
| "map_structure_write t ((f, ta) # tas) ((g, out) # outs) =
     (if f \<noteq> g then Inl StructureMismatch
      else case ta_write ta t out of
             Inl e \<Rightarrow> Inl e
           | Inr ta' \<Rightarrow>
               (case map_structure_write t tas outs of
                  Inl e \<Rightarrow> Inl e
                | Inr tas' \<Rightarrow> Inr ((f, ta') # tas')))"
| "map_structure_write t tas outs = Inl StructureMismatch"

text \<open>The same \<^verbatim>\<open>map_structure\<close> on the four buffers of the beam search status.\<close>

definition write_infer_status ::
  "int \<Rightarrow> infer_status_ta \<Rightarrow> (real list, int list) BeamSearchStateSpec \<Rightarrow> error + infer_status_ta" where
  "write_infer_status t ista infer_status =
     (case ta_write (log_probs ista) t (log_probs infer_status) of
        Inl e \<Rightarrow> Inl e
      | Inr lp_ta \<Rightarrow>
     (case ta_write (predicted_ids ista) t (predicted_ids infer_status) of
        Inl e \<Rightarrow> Inl e
      | Inr pi_ta \<Rightarrow>
     (case ta_write (beam_ids ista) t (beam_ids infer_status) of
        Inl e \<Rightarrow> Inl e
      | Inr bi_ta \<Rightarrow>
     (case ta_write (lengths ista) t (lengths infer_status) of
        Inl e \<Rightarrow> Inl e
      | Inr ln_ta \<Rightarrow>
          Inr \<lparr>log_probs = lp_ta, predicted_ids = pi_ta, beam_ids = bi_ta, lengths = ln_ta\<rparr>))))"

text \<open>
  Lines 298 to 315 of \<^verbatim>\<open>body_traininfer\<close>, the branch \<^verbatim>\<open>decoder.mode == INFER\<close>:
  given the preprocessed inputs, the step's outputs and new states, it yields
  \<open>(sample_ids, prev_inputs, next_decoder_states, args)\<close>. Outside inference
  \<^verbatim>\<open>sample_ids\<close> stays \<^verbatim>\<open>None\<close>, \<^verbatim>\<open>prev_inputs\<close> is the preprocessed input and no
  loop variable is added.
\<close>

definition infer_branch ::
  "('x, 's, 'p, 'o, 'f, 'e, 'b, 'l) Decoder \<Rightarrow> 'l Feedback \<Rightarrow> ('x, 'f, 'l) Modality
     \<Rightarrow> ('x, 's, 'o) loop_vars \<Rightarrow> 'x list \<Rightarrow> 'o namedtuple \<Rightarrow> 's list
     \<Rightarrow> error + (int list option \<times> 'x list \<times> 's list
                  \<times> (real list \<times> int list \<times> infer_status_ta) option)" where
  "infer_branch decoder helper target_modality vars inputs1 outputs next_decoder_states =
     (if mode decoder = INFER then
        (case args vars of
           None \<Rightarrow> Inl IndexError
         | Some a \<Rightarrow>
             (let (log_probs0, lengths0, infer_status_ta0) = a;
                  logits = compute_logits decoder target_modality outputs;
                  (sample_ids, beam_ids0, next_log_probs, next_lengths) =
                     sample_symbols helper logits log_probs0 (finished vars) lengths0 (time vars)
              in case gather_states next_decoder_states beam_ids0 of
                   Inl e \<Rightarrow> Inl e
                 | Inr next_decoder_states1 \<Rightarrow>
                (case gather_states inputs1 beam_ids0 of
                   Inl e \<Rightarrow> Inl e
                 | Inr prev_inputs \<Rightarrow>
                (case write_infer_status (time vars) infer_status_ta0
                        \<lparr>log_probs = next_log_probs, predicted_ids = sample_ids,
                         beam_ids = beam_ids0, lengths = next_lengths\<rparr> of
                   Inl e \<Rightarrow> Inl e
                 | Inr infer_status_ta1 \<Rightarrow>
                     Inr (Some sample_ids, prev_inputs, next_decoder_states1,
                          Some (next_log_probs, next_lengths, infer_status_ta1))))))
      else Inr (None, inputs1, next_decoder_states, None))"

text \<open>
  \<^verbatim>\<open>body_traininfer\<close>. Its free variables in the source (the decoder, the helper, the
  target modality, the output remover, the two input hooks and the decoding parameters)
  are bound once by \<^verbatim>\<open>dynamic_decode\<close> before the loop; they are parameters here.
\<close>

definition body_traininfer ::
  "('x, 's, 'p, 'o, 'f, 'e, 'b, 'l) Decoder \<Rightarrow> 'l Feedback \<Rightarrow> ('x, 'f, 'l) Modality
     \<Rightarrow> DecoderOutputRemover \<Rightarrow> (int \<Rightarrow> 'x list \<Rightarrow> 'x list)
     \<Rightarrow> ('x list option \<Rightarrow> 'x list \<Rightarrow> 'x list) \<Rightarrow> 'p list
     \<Rightarrow> ('x, 's, 'o) loop_vars \<Rightarrow> error + ('x, 's, 'o) loop_vars" where
  "body_traininfer decoder helper target_modality decoder_output_remover
       inputs_preprocessing_fn inputs_postprocessing_fn decoding_params vars =
     (let inputs1 = inputs_preprocessing_fn (time vars) (inputs vars);
          (outputs, next_decoder_states) = step decoder inputs1 (decoder_states vars) decoding_params
      in case map_structure_write (time vars) (outputs_ta vars)
                (remover_apply decoder_output_remover outputs) of
           Inl e \<Rightarrow> Inl e
         | Inr outputs_ta1 \<Rightarrow>
        (case infer_branch decoder helper target_modality vars inputs1 outputs next_decoder_states of
           Inl e \<Rightarrow> Inl e
         | Inr r \<Rightarrow>
             (let (sample_ids, prev_inputs, next_decoder_states1, args1) = r;
                  (next_finished, next_input_symbols) = next_symbols helper (time vars) sample_ids;
                  next_inputs = embed_words target_modality next_input_symbols (int32 (time vars + 1));
                  next_inputs1 = inputs_postprocessing_fn (Some prev_inputs) next_inputs
              in case logical_or next_finished (finished vars) of
                   Inl e \<Rightarrow> Inl e
                 | Inr next_finished1 \<Rightarrow>
                     Inr \<lparr>time = int32 (time vars + 1), inputs = next_inputs1,
                          decoder_states = next_decoder_states1, outputs_ta = outputs_ta1,
                          finished = next_finished1, args = args1\<rparr>)))"

subsection \<open>\<^verbatim>\<open>tf.while_loop\<close> and \<^verbatim>\<open>dynamic_decode\<close>\<close>

text \<open>
  \<^verbatim>\<open>tf.while_loop(cond, body, loop_vars)\<close> when the graph runs: the operations of
  the body run as long as the condition holds. A loop that never leaves is \<open>None\<close>; a
  body that fails ends the loop with its error. What \<^verbatim>\<open>tf.while_loop\<close> does when the
  graph is built, where it calls the Python function of the body once, is
  \<open>build_graph\<close> below.
\<close>

partial_function (option) while_loop ::
  "('a \<Rightarrow> bool) \<Rightarrow> ('a \<Rightarrow> error + 'a) \<Rightarrow> 'a \<Rightarrow> (error + 'a) option" where
  "while_loop cond body vars =
     (if cond vars then
        (case body vars of
           Inl e \<Rightarrow> Some (Inl e)
         | Inr vars' \<Rightarrow> while_loop cond body vars')
      else Some (Inr vars))"

declare while_loop.simps [code]

text \<open>The loop condition: \<^verbatim>\<open>lambda *args: tf.logical_not(tf.reduce_all(args[4]))\<close>.\<close>

definition loop_cond :: "('x, 's, 'o) loop_vars \<Rightarrow> bool" where
  "loop_cond vars = (\<not> reduce_all (finished vars))"

text \<open>
  Lines 256 to 273 and 328 to 335 of \<^verbatim>\<open>dynamic_decode\<close>: what is computed once before
  the loop. The result is the output remover, the two input hooks, the decoding
  parameters and the initial loop variables.
\<close>

definition decode_setup ::
  "('x, 's, 'p, 'o, 'f, 'e, 'b, 'l) Decoder \<Rightarrow> 'e \<Rightarrow> 'b \<Rightarrow> 'l Feedback \<Rightarrow> ('x, 'f, 'l) Modality
     \<Rightarrow> DecoderOutputRemover \<times> (int \<Rightarrow> 'x list \<Rightarrow> 'x list)
        \<times> ('x list option \<Rightarrow> 'x list \<Rightarrow> 'x list) \<times> 'p list \<times> ('x, 's, 'o) loop_vars" where
  "decode_setup decoder encoder_output bridge helper target_modality =
     (let decoder_output_remover =
            DecoderOutputRemover_init (mode decoder) (map fst (output_dtype decoder))
              (output_ignore_fields decoder);
          (initial_finished, initial_input_symbols) = init_symbols helper;
          initial_time = 0;
          initial_inputs = embed_words target_modality initial_input_symbols initial_time;
          (inputs_preprocessing_fn, inputs_postprocessing_fn) = inputs_prepost_processing_fn decoder;
          initial_inputs1 = inputs_postprocessing_fn None initial_inputs;
          (initial_decoder_states, decoding_params) = prepare decoder encoder_output bridge helper;
          initial_decoder_states1 =
            (if mode decoder = INFER
             then stack_beam_size initial_decoder_states (beam_size helper)
             else initial_decoder_states);
          decoding_params1 =
            (if mode decoder = INFER
             then stack_beam_size decoding_params (beam_size helper)
             else decoding_params);
          initial_outputs_ta =
            map (\<lambda>fd. (fst fd, create_ta (snd fd)))
              (remover_apply decoder_output_remover (output_dtype decoder));
          initial_args =
            (if mode decoder = INFER
             then Some (zeros_like initial_input_symbols, zeros_like initial_input_symbols,
                        \<lparr>log_probs = create_ta (log_probs BeamSearchStateSpec_dtypes),
                         predicted_ids = create_ta (predicted_ids BeamSearchStateSpec_dtypes),
                         beam_ids = create_ta (beam_ids BeamSearchStateSpec_dtypes),
                         lengths = create_ta (lengths BeamSearchStateSpec_dtypes)\<rparr>)
             else None)
      in (decoder_output_remover, inputs_preprocessing_fn, inputs_postprocessing_fn,
          decoding_params1,
          \<lparr>time = initial_time, inputs = initial_inputs1,
           decoder_states = initial_decoder_states1, outputs_ta = initial_outputs_ta,
           finished = initial_finished, args = initial_args\<rparr>))"

text \<open>
  The element shape of the buffer of field \<open>f\<close>: the static shape of the value that
  the loop body writes to it, not known when the body writes no such field.
\<close>

definition element_shape_of :: "TensorShape namedtuple \<Rightarrow> string \<Rightarrow> TensorShape" where
  "element_shape_of shapes f = (case map_of shapes f of None \<Rightarrow> None | Some shape \<Rightarrow> shape)"

text \<open>\<^verbatim>\<open>nest.map_structure(lambda ta: ta.stack(), ...)\<close> on the output buffers.\<close>

fun stack_outputs ::
  "TensorShape namedtuple \<Rightarrow> 'o TensorArray namedtuple \<Rightarrow> error + 'o list namedtuple" where
  "stack_outputs shapes [] = Inr []"
| "stack_outputs shapes ((f, ta) # tas) =
     (case ta_stack (element_shape_of shapes f) ta of
        Inl e \<Rightarrow> Inl e
      | Inr vs \<Rightarrow>
          (case stack_outputs shapes tas of
             Inl e \<Rightarrow> Inl e
           | Inr rest \<Rightarrow> Inr ((f, vs) # rest)))"

definition stack_infer_status ::
  "(TensorShape, TensorShape) BeamSearchStateSpec \<Rightarrow> infer_status_ta
     \<Rightarrow> error + (real list list, int list list) BeamSearchStateSpec" where
  "stack_infer_status shapes ista =
     (case ta_stack (log_probs shapes) (log_probs ista) of
        Inl e \<Rightarrow> Inl e
      | Inr lp \<Rightarrow>
     (case ta_stack (predicted_ids shapes) (predicted_ids ista) of
        Inl e \<Rightarrow> Inl e
      | Inr ps \<Rightarrow>
     (case ta_stack (beam_ids shapes) (beam_ids ista) of
        Inl e \<Rightarrow> Inl e
      | Inr bs \<Rightarrow>
     (case ta_stack (lengths shapes) (lengths ista) of
        Inl e \<Rightarrow> Inl e
      | Inr ls \<Rightarrow>
          Inr \<lparr>log_probs = lp, predicted_ids = ps, beam_ids = bs, lengths = ls\<rparr>))))"

text \<open>
  Lines 344 to 351: the buffers of the final loop variables are stacked; in mode INFER
  the status buffers (\<^verbatim>\<open>res[-1]\<close>) are stacked too and returned with the outputs. The
  element shape of an output buffer is the static shape of the field that the step
  writes to it, the element shape of a status buffer that of the tensor of
  \<^verbatim>\<open>sample_symbols\<close> written to it.
\<close>

definition finalize ::
  "('x, 's, 'p, 'o, 'f, 'e, 'b, 'l) Decoder \<Rightarrow> 'l Feedback \<Rightarrow> ('x, 's, 'o) loop_vars
     \<Rightarrow> error + ('o list namedtuple \<times> (real list list, int list list) BeamSearchStateSpec option)" where
  "finalize decoder helper res =
     (case stack_outputs (step_shapes decoder) (outputs_ta res) of
        Inl e \<Rightarrow> Inl e
      | Inr final_outputs \<Rightarrow>
          if mode decoder = INFER then
            (case args res of
               None \<Rightarrow> Inl IndexError
             | Some a \<Rightarrow>
                 (case stack_infer_status (sample_symbols_shapes helper) (snd (snd a)) of
                    Inl e \<Rightarrow> Inl e
                  | Inr final_infer_status \<Rightarrow> Inr (final_outputs, Some final_infer_status)))
          else Inr (final_outputs, None))"

text \<open>
  \<^verbatim>\<open>dynamic_decode\<close>, as the value of the tensors that the function returns when
  the graph that it has built runs: \<open>None\<close> when the loop never leaves, an error when
  a step or the finalization fails, otherwise the stacked outputs and, in mode INFER, the
  stacked beam search status. The construction of that graph, with the errors that end
  it before there is anything to run, is \<open>build_graph\<close> below.
\<close>

definition dynamic_decode ::
  "('x, 's, 'p, 'o, 'f, 'e, 'b, 'l) Decoder \<Rightarrow> 'e \<Rightarrow> 'b \<Rightarrow> 'l Feedback \<Rightarrow> ('x, 'f, 'l) Modality
     \<Rightarrow> (error + ('o list namedtuple
                   \<times> (real list list, int list list) BeamSearchStateSpec option)) option" where
  "dynamic_decode decoder encoder_output bridge helper target_modality =
     (let (decoder_output_remover, inputs_preprocessing_fn, inputs_postprocessing_fn,
           decoding_params, loop_vars0) =
            decode_setup decoder encoder_output bridge helper target_modality
      in case while_loop loop_cond
                (body_traininfer decoder helper target_modality decoder_output_remover
                   inputs_preprocessing_fn inputs_postprocessing_fn decoding_params)
                loop_vars0 of
           None \<Rightarrow> None
         | Some (Inl e) \<Rightarrow> Some (Inl e)
         | Some (Inr res) \<Rightarrow> Some (finalize decoder helper res))"

subsection \<open>The construction of the graph\<close>








subsection \<open>Runs of the loop\<close>

text \<open>The loop variables after \<open>n\<close> executions of a body, or the error that stopped them.\<close>

fun steps_of :: "('a \<Rightarrow> error + 'a) \<Rightarrow> nat \<Rightarrow> 'a \<Rightarrow> error + 'a" where
  "steps_of body 0 vars = Inr vars"
| "steps_of body (Suc n) vars =
     (case body vars of
        Inl e \<Rightarrow> Inl e
      | Inr vars' \<Rightarrow> steps_of body n vars')"

text \<open>
  The components of \<open>decode_setup\<close> by name: the remover, the decoding parameters, the
  initial loop variables, and the body with its free variables bound as
  \<^verbatim>\<open>dynamic_decode\<close> binds them.
\<close>

definition decode_remover ::
  "('x, 's, 'p, 'o, 'f, 'e, 'b, 'l) Decoder \<Rightarrow> DecoderOutputRemover" where
  "decode_remover decoder =
     DecoderOutputRemover_init (mode decoder) (map fst (output_dtype decoder))
       (output_ignore_fields decoder)"

definition decode_params ::
  "('x, 's, 'p, 'o, 'f, 'e, 'b, 'l) Decoder \<Rightarrow> 'e \<Rightarrow> 'b \<Rightarrow> 'l Feedback \<Rightarrow> 'p list" where
  "decode_params decoder encoder_output bridge helper =
     (if mode decoder = INFER
      then stack_beam_size (snd (prepare decoder encoder_output bridge helper)) (beam_size helper)
      else snd (prepare decoder encoder_output bridge helper))"

definition decode_init ::
  "('x, 's, 'p, 'o, 'f, 'e, 'b, 'l) Decoder \<Rightarrow> 'e \<Rightarrow> 'b \<Rightarrow> 'l Feedback \<Rightarrow> ('x, 'f, 'l) Modality
     \<Rightarrow> ('x, 's, 'o) loop_vars" where
  "decode_init decoder encoder_output bridge helper target_modality =
     snd (snd (snd (snd (decode_setup decoder encoder_output bridge helper target_modality))))"

definition decode_body ::
  "('x, 's, 'p, 'o, 'f, 'e, 'b, 'l) Decoder \<Rightarrow> 'e \<Rightarrow> 'b \<Rightarrow> 'l Feedback \<Rightarrow> ('x, 'f, 'l) Modality
     \<Rightarrow> ('x, 's, 'o) loop_vars \<Rightarrow> error + ('x, 's, 'o) loop_vars" where
  "decode_body decoder encoder_output bridge helper target_modality =
     body_traininfer decoder helper target_modality (decode_remover decoder)
       (fst (inputs_prepost_processing_fn decoder)) (snd (inputs_prepost_processing_fn decoder))
       (decode_params decoder encoder_output bridge helper)"

text \<open>The \<^verbatim>\<open>tf.while_loop\<close> call of \<^verbatim>\<open>dynamic_decode\<close>, and its loop variables after \<open>n\<close> steps.\<close>

definition decode_loop ::
  "('x, 's, 'p, 'o, 'f, 'e, 'b, 'l) Decoder \<Rightarrow> 'e \<Rightarrow> 'b \<Rightarrow> 'l Feedback \<Rightarrow> ('x, 'f, 'l) Modality
     \<Rightarrow> (error + ('x, 's, 'o) loop_vars) option" where
  "decode_loop decoder encoder_output bridge helper target_modality =
     while_loop loop_cond (decode_body decoder encoder_output bridge helper target_modality)
       (decode_init decoder encoder_output bridge helper target_modality)"

definition decode_state ::
  "('x, 's, 'p, 'o, 'f, 'e, 'b, 'l) Decoder \<Rightarrow> 'e \<Rightarrow> 'b \<Rightarrow> 'l Feedback \<Rightarrow> ('x, 'f, 'l) Modality
     \<Rightarrow> nat \<Rightarrow> error + ('x, 's, 'o) loop_vars" where
  "decode_state decoder encoder_output bridge helper target_modality n =
     steps_of (decode_body decoder encoder_output bridge helper target_modality) n
       (decode_init decoder encoder_output bridge helper target_modality)"

text \<open>
  The input handed to \<^verbatim>\<open>decoder.step\<close> in the step taken from loop variables \<open>vars\<close>,
  and the schema-filtered output record that step writes into the buffers.
\<close>

definition step_input ::
  "('x, 's, 'p, 'o, 'f, 'e, 'b, 'l) Decoder \<Rightarrow> ('x, 's, 'o) loop_vars \<Rightarrow> 'x list" where
  "step_input decoder vars =
     fst (inputs_prepost_processing_fn decoder) (time vars) (inputs vars)"

definition step_record ::
  "('x, 's, 'p, 'o, 'f, 'e, 'b, 'l) Decoder \<Rightarrow> 'e \<Rightarrow> 'b \<Rightarrow> 'l Feedback
     \<Rightarrow> ('x, 's, 'o) loop_vars \<Rightarrow> 'o namedtuple" where
  "step_record decoder encoder_output bridge helper vars =
     remover_apply (decode_remover decoder)
       (fst (step decoder (step_input decoder vars) (decoder_states vars)
               (decode_params decoder encoder_output bridge helper)))"

subsection \<open>Concrete decoders, helpers and a modality\<close>

text \<open>
  A small instance on which the theorems are run. The modality embeds symbol \<open>s\<close> at
  time \<open>t\<close> as \<open>10 s + t\<close>; the decoder adds each lane's input to its state and reports
  the fields \<open>hidden\<close> and \<open>attention\<close>, the second of which it asks not to save. The
  batch size is fed at run time, so the leading dimension of its static shapes is not
  known.
\<close>

definition ex_modality :: "(nat, nat list namedtuple, nat list namedtuple) Modality" where
  "ex_modality =
     \<lparr>targets_bottom = (\<lambda>symbols t. map (\<lambda>s. nat (s * 10 + t)) symbols), top_fn = (\<lambda>features. features)\<rparr>"

definition ex_decoder ::
  "ModeKeys \<Rightarrow> (int \<Rightarrow> nat list \<Rightarrow> nat list) \<times> (nat list option \<Rightarrow> nat list \<Rightarrow> nat list)
     \<Rightarrow> (nat, nat, unit, nat list, nat list namedtuple, unit, unit, nat list namedtuple) Decoder" where
  "ex_decoder m hooks =
     \<lparr>mode = m,
      output_dtype = [(''hidden'', tf_float32), (''attention'', tf_float32)],
      output_ignore_fields = Some [''attention''],
      prepare = (\<lambda>enc br h. ([100], [()])),
      step = (\<lambda>xs ss ps. ([(''hidden'', map2 (+) ss xs), (''attention'', xs)], map2 (+) ss xs)),
      step_shapes = [(''hidden'', Some [None]), (''attention'', Some [None])],
      merge_top_features = (\<lambda>outs. outs),
      inputs_prepost_processing_fn = hooks\<rparr>"

text \<open>Hooks that are not pass-throughs: the first adds one to every lane, the second adds the previous input to the new one.\<close>

definition ex_hooks ::
  "(int \<Rightarrow> nat list \<Rightarrow> nat list) \<times> (nat list option \<Rightarrow> nat list \<Rightarrow> nat list)" where
  "ex_hooks =
     ((\<lambda>t xs. map Suc xs),
      (\<lambda>prev new. case prev of None \<Rightarrow> new | Some p \<Rightarrow> map2 (+) p new))"

text \<open>
  A beam helper with one sentence and beam width two. Every step it swaps the two
  lanes (\<open>beam_ids = [1, 0]\<close>), predicts the symbols 3 and 4, adds \<open>-0.1\<close> to the
  log-probability of lane 0 and \<open>-0.2\<close> to that of lane 1, and reports finished at
  time \<open>t\<close> the lanes that \<open>fin t\<close> marks.
\<close>

definition ex_beam_helper :: "(int \<Rightarrow> bool list) \<Rightarrow> nat list namedtuple Feedback" where
  "ex_beam_helper fin =
     \<lparr>beam_size = 2,
      init_symbols = ([False, False], [1, 2]),
      sample_symbols =
        (\<lambda>logits lp f ln t. ([3, 4], [1, 0], map2 (+) lp [- 1 / 10, - 2 / 10], map (\<lambda>l. l + 1) ln)),
      next_symbols =
        (\<lambda>t sids. (fin t, case sids of None \<Rightarrow> [0, 0] | Some ids \<Rightarrow> ids)),
      sample_symbols_shapes =
        \<lparr>log_probs = Some [None], predicted_ids = Some [None], beam_ids = Some [None],
         lengths = Some [None]\<rparr>\<rparr>"

text \<open>A teacher-forcing helper with one lane: the target symbol at time \<open>t\<close> is \<open>t + 2\<close>.\<close>

definition ex_train_helper :: "(int \<Rightarrow> bool) \<Rightarrow> nat list namedtuple Feedback" where
  "ex_train_helper fin =
     \<lparr>beam_size = 1,
      init_symbols = ([False], [1]),
      sample_symbols = (\<lambda>logits lp f ln t. ([], [], [], [])),
      next_symbols = (\<lambda>t sids. ([fin t], [t + 2])),
      sample_symbols_shapes =
        \<lparr>log_probs = Some [None], predicted_ids = Some [None], beam_ids = Some [None],
         lengths = Some [None]\<rparr>\<rparr>"

text \<open>
  A helper and a decoder for an empty batch: no lanes at all, in the mask, the symbols,
  the inputs and the states. \<open>shape\<close> is the static shape of their tensors:
  \<open>Some [None]\<close> when the batch size is fed at run time, \<open>Some [Some 0]\<close> when the
  graph is built for the batch size zero.
\<close>

definition ex_empty_helper :: "TensorShape \<Rightarrow> nat list namedtuple Feedback" where
  "ex_empty_helper shape =
     \<lparr>beam_size = 2,
      init_symbols = ([], []),
      sample_symbols = (\<lambda>logits lp f ln t. ([], [], [], [])),
      next_symbols = (\<lambda>t sids. ([], [])),
      sample_symbols_shapes =
        \<lparr>log_probs = shape, predicted_ids = shape, beam_ids = shape, lengths = shape\<rparr>\<rparr>"

definition ex_empty_decoder ::
  "ModeKeys \<Rightarrow> TensorShape
     \<Rightarrow> (nat, nat, unit, nat list, nat list namedtuple, unit, unit, nat list namedtuple) Decoder" where
  "ex_empty_decoder m shape =
     (ex_decoder m ex_hooks)
       \<lparr>prepare := (\<lambda>enc br h. ([], [])),
        step_shapes := [(''hidden'', shape), (''attention'', shape)]\<rparr>"

section \<open>Facts about runs of a loop\<close>

text \<open>
  \<open>while_loop\<close> returns exactly when some run of the body reaches loop variables on
  which the condition fails, or an error; it is \<open>None\<close> exactly when every run of the
  body succeeds and leaves the condition true.
\<close>

lemma int32_id:
  assumes "- (2 ^ 31) \<le> i" and "i < 2 ^ 31"
  shows "int32 i = i"
proof -
  from assms have "0 \<le> i + 2 ^ 31" "i + 2 ^ 31 < 2 ^ 32" by simp_all
  then have "(i + 2 ^ 31) mod 2 ^ 32 = i + 2 ^ 31" by (rule mod_pos_pos_trivial)
  then show ?thesis by (simp add: int32_def)
qed

lemma int32_of_nat:
  assumes "n < 2 ^ 31"
  shows "int32 (int n) = int n"
proof (rule int32_id)
  show "- (2 ^ 31) \<le> int n" by simp
  from assms have "int n < int (2 ^ 31)" by (simp only: of_nat_less_iff)
  then show "int n < 2 ^ 31" by simp
qed

lemma int32_wraps: "int32 (2 ^ 31) = - (2 ^ 31)"
  by (simp add: int32_def)

lemma int32_range: "- (2 ^ 31) \<le> int32 i \<and> int32 i < 2 ^ 31"
proof -
  have "0 \<le> (i + 2 ^ 31) mod 2 ^ 32" "(i + 2 ^ 31) mod 2 ^ 32 < 2 ^ 32"
    by simp_all
  then show ?thesis by (simp add: int32_def)
qed

lemma int32_succ: "int32 (int32 i + 1) = int32 (i + 1)"
proof -
  have "(int32 i + 1 + 2 ^ 31) mod 2 ^ 32 = ((i + 2 ^ 31) mod 2 ^ 32 + 1) mod 2 ^ 32"
    by (simp add: int32_def ac_simps)
  also have "\<dots> = (i + 2 ^ 31 + 1) mod 2 ^ 32" by (simp add: mod_add_left_eq)
  finally show ?thesis by (simp add: int32_def ac_simps)
qed

lemma int32_le:
  assumes "0 \<le> i"
  shows "int32 i \<le> i"
proof -
  from assms have "0 \<le> i + 2 ^ 31" by simp
  then have "(i + 2 ^ 31) mod 2 ^ 32 \<le> i + 2 ^ 31" by (rule zmod_le_nonneg_dividend)
  then show ?thesis by (simp add: int32_def)
qed

lemma int32_nat_fixed:
  assumes "int32 (int n) = int n"
  shows "n < 2 ^ 31"
proof -
  from int32_range [of "int n"] assms have "int n < 2 ^ 31" by simp
  then have "int n < int (2 ^ 31)" by simp
  then show ?thesis by (simp only: of_nat_less_iff)
qed

lemma steps_of_add:
  "steps_of body (m + n) vars =
     (case steps_of body m vars of Inl e \<Rightarrow> Inl e | Inr u \<Rightarrow> steps_of body n u)"
  by (induction m arbitrary: vars) (auto split: sum.splits)

lemma steps_of_Suc_right:
  "steps_of body (Suc n) vars =
     (case steps_of body n vars of Inl e \<Rightarrow> Inl e | Inr u \<Rightarrow> body u)"
  using steps_of_add [of body n 1 vars] by (auto split: sum.splits)

lemma steps_of_prefix:
  "steps_of body n vars = Inr v \<Longrightarrow> m \<le> n \<Longrightarrow> \<exists>u. steps_of body m vars = Inr u"
  using steps_of_add [of body m "n - m" vars] by (auto split: sum.splits)

lemma while_loop_exit:
  assumes "steps_of body n vars = Inr v" and "\<not> cond v"
    and "\<And>m. m < n \<Longrightarrow> \<exists>u. steps_of body m vars = Inr u \<and> cond u"
  shows "while_loop cond body vars = Some (Inr v)"
  using assms
proof (induction n arbitrary: vars)
  case 0
  then show ?case by (simp add: while_loop.simps)
next
  case (Suc n)
  from Suc.prems(3) [of 0] have c: "cond vars" by simp
  from Suc.prems(1) obtain w where w: "body vars = Inr w" and sw: "steps_of body n w = Inr v"
    by (auto split: sum.splits)
  have "\<And>m. m < n \<Longrightarrow> \<exists>u. steps_of body m w = Inr u \<and> cond u"
  proof -
    fix m assume "m < n"
    then have "Suc m < Suc n" by simp
    from Suc.prems(3) [OF this] show "\<exists>u. steps_of body m w = Inr u \<and> cond u"
      using w by simp
  qed
  from Suc.IH [OF sw Suc.prems(2) this] show ?case
    using c w by (subst while_loop.simps) simp
qed

lemma while_loop_fail:
  assumes "steps_of body n vars = Inl e"
    and "\<And>m. m < n \<Longrightarrow> \<exists>u. steps_of body m vars = Inr u \<and> cond u"
  shows "while_loop cond body vars = Some (Inl e)"
  using assms
proof (induction n arbitrary: vars)
  case 0
  then show ?case by simp
next
  case (Suc n)
  from Suc.prems(2) [of 0] have c: "cond vars" by simp
  show ?case
  proof (cases "body vars")
    case (Inl e')
    with Suc.prems(1) have "e' = e" by simp
    with Inl c show ?thesis by (subst while_loop.simps) simp
  next
    case (Inr w)
    with Suc.prems(1) have sw: "steps_of body n w = Inl e" by simp
    have "\<And>m. m < n \<Longrightarrow> \<exists>u. steps_of body m w = Inr u \<and> cond u"
    proof -
      fix m assume "m < n"
      then have "Suc m < Suc n" by simp
      from Suc.prems(2) [OF this] show "\<exists>u. steps_of body m w = Inr u \<and> cond u"
        using Inr by simp
    qed
    from Suc.IH [OF sw this] show ?thesis
      using c Inr by (subst while_loop.simps) simp
  qed
qed

lemma while_loop_Some_run:
  assumes "while_loop cond body vars = Some r"
  shows "\<exists>n. (\<forall>m<n. \<exists>u. steps_of body m vars = Inr u \<and> cond u) \<and>
              steps_of body n vars = r \<and> (case r of Inl e \<Rightarrow> True | Inr v \<Rightarrow> \<not> cond v)"
  using assms
proof (induction rule: while_loop.raw_induct [rotated, consumes 1, case_names step])
  case (step wl cond body vars r)
  show ?case
  proof (cases "cond vars")
    case False
    with step(2) have "r = Inr vars" by simp
    with False show ?thesis by (intro exI [of _ 0]) simp
  next
    case True
    show ?thesis
    proof (cases "body vars")
      case (Inl e)
      with True step(2) have "r = Inl e" by simp
      with Inl True show ?thesis by (intro exI [of _ 1]) simp
    next
      case (Inr w)
      with True step(2) have "wl cond body w = Some r" by simp
      from step(1) [OF this] obtain n where
        n: "\<forall>m<n. \<exists>u. steps_of body m w = Inr u \<and> cond u" "steps_of body n w = r"
           "case r of Inl e \<Rightarrow> True | Inr v \<Rightarrow> \<not> cond v" by blast
      have "\<forall>m<Suc n. \<exists>u. steps_of body m vars = Inr u \<and> cond u"
      proof (intro allI impI)
        fix m assume "m < Suc n"
        then show "\<exists>u. steps_of body m vars = Inr u \<and> cond u"
          using n(1) True Inr by (cases m) auto
      qed
      with n(2,3) Inr show ?thesis by (intro exI [of _ "Suc n"]) simp
    qed
  qed
qed

lemma while_loop_None_iff:
  "while_loop cond body vars = None \<longleftrightarrow> (\<forall>n. \<exists>u. steps_of body n vars = Inr u \<and> cond u)"
proof
  assume none: "while_loop cond body vars = None"
  show "\<forall>n. \<exists>u. steps_of body n vars = Inr u \<and> cond u"
  proof (rule ccontr)
    assume "\<not> (\<forall>n. \<exists>u. steps_of body n vars = Inr u \<and> cond u)"
    then have ex: "\<exists>n. \<not> (\<exists>u. steps_of body n vars = Inr u \<and> cond u)" by simp
    define k where "k = (LEAST n. \<not> (\<exists>u. steps_of body n vars = Inr u \<and> cond u))"
    have k: "\<not> (\<exists>u. steps_of body k vars = Inr u \<and> cond u)"
      unfolding k_def using ex by (rule LeastI_ex)
    have below: "\<And>m. m < k \<Longrightarrow> \<exists>u. steps_of body m vars = Inr u \<and> cond u"
      unfolding k_def using not_less_Least by blast
    show False
    proof (cases "steps_of body k vars")
      case (Inl e)
      from while_loop_fail [OF Inl below] none show False by simp
    next
      case (Inr v)
      with k have "\<not> cond v" by simp
      from while_loop_exit [OF Inr this below] none show False by simp
    qed
  qed
next
  assume all: "\<forall>n. \<exists>u. steps_of body n vars = Inr u \<and> cond u"
  show "while_loop cond body vars = None"
  proof (cases "while_loop cond body vars")
    case None
    then show ?thesis .
  next
    case (Some r)
    from while_loop_Some_run [OF Some] obtain n where
      "steps_of body n vars = r" "case r of Inl e \<Rightarrow> True | Inr v \<Rightarrow> \<not> cond v" by blast
    with all [rule_format, of n] show ?thesis by (auto split: sum.splits)
  qed
qed

lemma while_loop_Inr_iff:
  "while_loop cond body vars = Some (Inr v) \<longleftrightarrow>
     (\<exists>n. steps_of body n vars = Inr v \<and> \<not> cond v \<and>
          (\<forall>m<n. \<exists>u. steps_of body m vars = Inr u \<and> cond u))"
proof
  assume "while_loop cond body vars = Some (Inr v)"
  from while_loop_Some_run [OF this] show
    "\<exists>n. steps_of body n vars = Inr v \<and> \<not> cond v \<and>
          (\<forall>m<n. \<exists>u. steps_of body m vars = Inr u \<and> cond u)" by auto
next
  assume "\<exists>n. steps_of body n vars = Inr v \<and> \<not> cond v \<and>
          (\<forall>m<n. \<exists>u. steps_of body m vars = Inr u \<and> cond u)"
  then obtain n where "steps_of body n vars = Inr v" "\<not> cond v"
    "\<And>m. m < n \<Longrightarrow> \<exists>u. steps_of body m vars = Inr u \<and> cond u" by blast
  then show "while_loop cond body vars = Some (Inr v)" by (rule while_loop_exit)
qed

section \<open>What one step and the setup do\<close>

lemma decode_setup_eq:
  "decode_setup d e b h tm =
     (decode_remover d, fst (inputs_prepost_processing_fn d), snd (inputs_prepost_processing_fn d),
      decode_params d e b h, decode_init d e b h tm)"
  by (simp add: decode_init_def decode_setup_def decode_remover_def decode_params_def Let_def
      split: prod.splits)

lemma dynamic_decode_eq:
  "dynamic_decode d e b h tm =
     (case decode_loop d e b h tm of
        None \<Rightarrow> None
      | Some (Inl err) \<Rightarrow> Some (Inl err)
      | Some (Inr res) \<Rightarrow> Some (finalize d h res))"
  by (simp add: dynamic_decode_def decode_setup_eq decode_loop_def decode_body_def)

lemma decode_init_fields:
  "time (decode_init d e b h tm) = 0"
  "finished (decode_init d e b h tm) = fst (init_symbols h)"
  "outputs_ta (decode_init d e b h tm) =
     map (\<lambda>fd. (fst fd, [])) (remover_apply (decode_remover d) (output_dtype d))"
  "args (decode_init d e b h tm) =
     (if mode d = INFER
      then Some (replicate (length (snd (init_symbols h))) 0,
                 replicate (length (snd (init_symbols h))) 0,
                 \<lparr>log_probs = [], predicted_ids = [], beam_ids = [], lengths = []\<rparr>)
      else None)"
  by (simp_all add: decode_init_def decode_setup_def decode_remover_def Let_def create_ta_def
      zeros_like_def split: prod.splits)

lemma body_traininfer_Inr:
  assumes "body_traininfer d h tm R pre post dp v = Inr v'"
  shows "\<exists>outputs nds sids prev nds1 args1.
           step d (pre (time v) (inputs v)) (decoder_states v) dp = (outputs, nds) \<and>
           map_structure_write (time v) (outputs_ta v) (remover_apply R outputs) = Inr (outputs_ta v') \<and>
           infer_branch d h tm v (pre (time v) (inputs v)) outputs nds = Inr (sids, prev, nds1, args1) \<and>
           time v' = int32 (time v + 1) \<and>
           inputs v' = post (Some prev)
                         (embed_words tm (snd (next_symbols h (time v) sids)) (int32 (time v + 1))) \<and>
           decoder_states v' = nds1 \<and> args v' = args1 \<and>
           logical_or (fst (next_symbols h (time v) sids)) (finished v) = Inr (finished v')"
  using assms
  by (auto simp add: body_traininfer_def Let_def split: prod.splits sum.splits)

lemma infer_branch_INFER:
  assumes "infer_branch d h tm v inputs1 outputs nds = Inr (sids, prev, nds1, args1)"
    and "mode d = INFER"
  shows "\<exists>lp lens ista sample bids nlp nlens ista1.
           args v = Some (lp, lens, ista) \<and>
           sample_symbols h (compute_logits d tm outputs) lp (finished v) lens (time v) = (sample, bids, nlp, nlens) \<and>
           gather_states nds bids = Inr nds1 \<and>
           gather_states inputs1 bids = Inr prev \<and>
           write_infer_status (time v) ista
             \<lparr>log_probs = nlp, predicted_ids = sample, beam_ids = bids, lengths = nlens\<rparr> = Inr ista1 \<and>
           sids = Some sample \<and> args1 = Some (nlp, nlens, ista1)"
  using assms
  by (auto simp add: infer_branch_def Let_def split: prod.splits sum.splits option.splits)

lemma infer_branch_other:
  assumes "mode d \<noteq> INFER"
  shows "infer_branch d h tm v inputs1 outputs nds = Inr (None, inputs1, nds, None)"
  using assms by (simp add: infer_branch_def)

lemmas ex_defs = ex_decoder_def ex_beam_helper_def ex_train_helper_def ex_empty_helper_def
  ex_empty_decoder_def
  ex_modality_def ex_hooks_def default_prepost_processing_fn_def

lemmas model_defs = decode_body_def decode_init_def decode_setup_def decode_remover_def decode_params_def
  body_traininfer_def infer_branch_def compute_logits_def embed_words_def
  DecoderOutputRemover_init_def remover_apply_def stack_beam_size_def gather_states_def
  write_infer_status_def ta_write_def logical_or_def zeros_like_def create_ta_def
  BeamSearchStateSpec_dtypes_def int32_def

section \<open>The claims\<close>

text \<open>
  Claim C10. At every inference step the driver carries the log-probabilities and the
  lengths that the feedback policy returned into the next iteration unchanged: they are
  the next loop variables as \<^verbatim>\<open>sample_symbols\<close> gave them, and the status record
  written at this time holds the same values. The gather by \<open>beam_ids\<close> is applied to
  the decoder states and to the pending input only.
\<close>

theorem log_probs_lengths_carried_unchanged:
  assumes "body_traininfer d h tm R pre post dp v = Inr v'"
    and "mode d = INFER"
    and "args v = Some (lp, lens, ista)"
    and "step d (pre (time v) (inputs v)) (decoder_states v) dp = (outputs, nds)"
    and "sample_symbols h (compute_logits d tm outputs) lp (finished v) lens (time v)
           = (sample, bids, nlp, nlens)"
  shows "\<exists>ista1. args v' = Some (nlp, nlens, ista1) \<and>
           write_infer_status (time v) ista
             \<lparr>log_probs = nlp, predicted_ids = sample, beam_ids = bids, lengths = nlens\<rparr> = Inr ista1"
proof -
  from body_traininfer_Inr [OF assms(1)] obtain outputs' nds' sids prev nds1 args1 where
    st: "step d (pre (time v) (inputs v)) (decoder_states v) dp = (outputs', nds')" and
    ib: "infer_branch d h tm v (pre (time v) (inputs v)) outputs' nds' = Inr (sids, prev, nds1, args1)" and
    a: "args v' = args1" by blast
  from st assms(4) have eq: "outputs' = outputs" "nds' = nds" by simp_all
  from infer_branch_INFER [OF ib assms(2)] assms(3,5) a show ?thesis
    unfolding eq by auto
qed

theorem log_probs_lengths_carried_unchanged_witness:
  "mode (ex_decoder INFER default_prepost_processing_fn) = INFER \<and>
   (\<exists>v'. decode_body (ex_decoder INFER default_prepost_processing_fn) () ()
            (ex_beam_helper (\<lambda>t. [False, False])) ex_modality
            (decode_init (ex_decoder INFER default_prepost_processing_fn) () ()
               (ex_beam_helper (\<lambda>t. [False, False])) ex_modality) = Inr v' \<and>
          decoder_states v' = [120, 110] \<and>
          (\<exists>ista1. args v' = Some ([- 1 / 10, - 2 / 10], [1, 1], ista1) \<and>
             write_infer_status 0
               \<lparr>log_probs = [], predicted_ids = [], beam_ids = [], lengths = []\<rparr>
               \<lparr>log_probs = [- 1 / 10, - 2 / 10], predicted_ids = [3, 4], beam_ids = [1, 0],
                lengths = [1, 1]\<rparr> = Inr ista1))"
proof -
  let ?d = "ex_decoder INFER default_prepost_processing_fn"
  let ?h = "ex_beam_helper (\<lambda>t. [False, False])"
  let ?v = "decode_init ?d () () ?h ex_modality"
  obtain v' where b: "decode_body ?d () () ?h ex_modality ?v = Inr v'"
    and s: "decoder_states v' = [120, 110]"
    by (simp add: model_defs ex_defs Let_def)
  have m: "mode ?d = INFER" by (simp add: ex_defs)
  have a: "args ?v = Some ([0, 0], [0, 0],
      \<lparr>log_probs = [], predicted_ids = [], beam_ids = [], lengths = []\<rparr>)"
    by (simp add: model_defs ex_defs Let_def)
  have st: "step ?d (fst (inputs_prepost_processing_fn ?d) (time ?v) (inputs ?v)) (decoder_states ?v)
              (decode_params ?d () () ?h)
            = ([(''hidden'', [110, 120]), (''attention'', [10, 20])], [110, 120])"
    by (simp add: model_defs ex_defs Let_def numeral_2_eq_2)
  have ss: "sample_symbols ?h
              (compute_logits ?d ex_modality [(''hidden'', [110, 120]), (''attention'', [10, 20])])
              [0, 0] (finished ?v) [0, 0] (time ?v)
            = ([3, 4], [1, 0], [- 1 / 10, - 2 / 10], [1, 1])"
    by (simp add: model_defs ex_defs Let_def)
  from log_probs_lengths_carried_unchanged [OF b [unfolded decode_body_def] m a st ss]
  have "\<exists>ista1. args v' = Some ([- 1 / 10, - 2 / 10], [1, 1], ista1) \<and>
          write_infer_status (time ?v)
            \<lparr>log_probs = [], predicted_ids = [], beam_ids = [], lengths = []\<rparr>
            \<lparr>log_probs = [- 1 / 10, - 2 / 10], predicted_ids = [3, 4], beam_ids = [1, 0],
             lengths = [1, 1]\<rparr> = Inr ista1" .
  moreover have "time ?v = 0" by (simp add: decode_init_fields)
  ultimately show ?thesis using b s m by auto
qed

lemma gather_states_Inr:
  assumes "gather_states xs ids = Inr ys"
  shows "length ys = length ids"
    and "\<And>i. i < length ids \<Longrightarrow> 0 \<le> ids ! i \<and> nat (ids ! i) < length xs \<and> ys ! i = xs ! nat (ids ! i)"
proof -
  from assms have ok: "list_all (\<lambda>b. 0 \<le> b \<and> b < int (length xs)) ids"
    and ys: "ys = map (\<lambda>b. xs ! nat b) ids"
    by (auto simp add: gather_states_def split: if_splits)
  show "length ys = length ids" by (simp add: ys)
  fix i assume i: "i < length ids"
  with ok have "0 \<le> ids ! i \<and> ids ! i < int (length xs)"
    by (simp add: list_all_length)
  with i show "0 \<le> ids ! i \<and> nat (ids ! i) < length xs \<and> ys ! i = xs ! nat (ids ! i)"
    by (simp add: ys nat_less_iff)
qed

lemma gather_states_swap:
  assumes "gather_states xs [1, 0] = Inr ys"
  shows "ys = [xs ! 1, xs ! 0]"
  using assms by (auto simp add: gather_states_def split: if_splits)

text \<open>
  Claim C1. At every inference step the driver gathers both the new decoder states and
  the input of the current step (the preprocessed input that was handed to
  \<^verbatim>\<open>decoder.step\<close>) by the \<open>beam_ids\<close> that the feedback policy returned: lane \<open>i\<close>
  of the next states and of the pending input handed to the post-processing hook is
  lane \<open>beam_ids[i]\<close> of the values before the reorder. With \<open>beam_ids = [1, 0]\<close> the
  two lanes are swapped.
\<close>

theorem beam_reorder_state_and_input:
  assumes "body_traininfer d h tm R pre post dp v = Inr v'"
    and "mode d = INFER"
    and "args v = Some (lp, lens, ista)"
    and "step d (pre (time v) (inputs v)) (decoder_states v) dp = (outputs, nds)"
    and "sample_symbols h (compute_logits d tm outputs) lp (finished v) lens (time v)
           = (sample, bids, nlp, nlens)"
  shows "\<exists>prev_inputs.
           gather_states nds bids = Inr (decoder_states v') \<and>
           gather_states (pre (time v) (inputs v)) bids = Inr prev_inputs \<and>
           inputs v' = post (Some prev_inputs)
                         (embed_words tm (snd (next_symbols h (time v) (Some sample)))
                            (int32 (time v + 1))) \<and>
           length (decoder_states v') = length bids \<and> length prev_inputs = length bids \<and>
           (\<forall>i<length bids.
              0 \<le> bids ! i \<and> nat (bids ! i) < length nds \<and>
              nat (bids ! i) < length (pre (time v) (inputs v)) \<and>
              decoder_states v' ! i = nds ! nat (bids ! i) \<and>
              prev_inputs ! i = pre (time v) (inputs v) ! nat (bids ! i)) \<and>
           (bids = [1, 0] \<longrightarrow>
              decoder_states v' = [nds ! 1, nds ! 0] \<and>
              prev_inputs = [pre (time v) (inputs v) ! 1, pre (time v) (inputs v) ! 0])"
proof -
  let ?in1 = "pre (time v) (inputs v)"
  from body_traininfer_Inr [OF assms(1)] obtain outputs' nds' sids prev nds1 args1 where
    st: "step d ?in1 (decoder_states v) dp = (outputs', nds')" and
    ib: "infer_branch d h tm v ?in1 outputs' nds' = Inr (sids, prev, nds1, args1)" and
    i': "inputs v' = post (Some prev)
           (embed_words tm (snd (next_symbols h (time v) sids)) (int32 (time v + 1)))" and
    s': "decoder_states v' = nds1" by blast
  from st assms(4) have eq: "outputs' = outputs" "nds' = nds" by simp_all
  from infer_branch_INFER [OF ib assms(2)] assms(3,5) have
    g1: "gather_states nds bids = Inr nds1" and
    g2: "gather_states ?in1 bids = Inr prev" and
    sd: "sids = Some sample"
    unfolding eq by auto
  note a = gather_states_Inr [OF g1] and b = gather_states_Inr [OF g2]
  have all: "\<forall>i<length bids.
          0 \<le> bids ! i \<and> nat (bids ! i) < length nds \<and> nat (bids ! i) < length ?in1 \<and>
          decoder_states v' ! i = nds ! nat (bids ! i) \<and> prev ! i = ?in1 ! nat (bids ! i)"
  proof (intro allI impI)
    fix i assume i: "i < length bids"
    from a(2) [OF i] b(2) [OF i] show
      "0 \<le> bids ! i \<and> nat (bids ! i) < length nds \<and> nat (bids ! i) < length ?in1 \<and>
       decoder_states v' ! i = nds ! nat (bids ! i) \<and> prev ! i = ?in1 ! nat (bids ! i)"
      unfolding s' by blast
  qed
  have swap: "bids = [1, 0] \<longrightarrow>
      decoder_states v' = [nds ! 1, nds ! 0] \<and> prev = [?in1 ! 1, ?in1 ! 0]"
  proof
    assume bd: "bids = [1, 0]"
    from gather_states_swap [OF g1 [unfolded bd]] gather_states_swap [OF g2 [unfolded bd]]
    show "decoder_states v' = [nds ! 1, nds ! 0] \<and> prev = [?in1 ! 1, ?in1 ! 0]"
      unfolding s' by blast
  qed
  have g1': "gather_states nds bids = Inr (decoder_states v')" using g1 s' by simp
  have i'': "inputs v' = post (Some prev)
               (embed_words tm (snd (next_symbols h (time v) (Some sample))) (int32 (time v + 1)))"
    using i' sd by simp
  have l1: "length (decoder_states v') = length bids" using a(1) s' by simp
  from g1' g2 i'' l1 b(1) all swap show ?thesis by blast
qed

theorem beam_reorder_state_and_input_witness:
  "mode (ex_decoder INFER ex_hooks) = INFER \<and>
   (\<exists>v' prev_inputs.
      decode_body (ex_decoder INFER ex_hooks) () () (ex_beam_helper (\<lambda>t. [False, False])) ex_modality
        (decode_init (ex_decoder INFER ex_hooks) () () (ex_beam_helper (\<lambda>t. [False, False])) ex_modality)
        = Inr v' \<and>
      gather_states [111, 121] [1, 0] = Inr (decoder_states v') \<and>
      gather_states [11, 21] [1, 0] = Inr prev_inputs \<and>
      decoder_states v' = [121, 111] \<and> prev_inputs = [21, 11] \<and>
      inputs v' = snd ex_hooks (Some prev_inputs) [31, 41])"
proof -
  let ?d = "ex_decoder INFER ex_hooks"
  let ?h = "ex_beam_helper (\<lambda>t. [False, False])"
  let ?v = "decode_init ?d () () ?h ex_modality"
  obtain v' where b: "decode_body ?d () () ?h ex_modality ?v = Inr v'"
    by (simp add: model_defs ex_defs Let_def)
  have m: "mode ?d = INFER" by (simp add: ex_defs)
  have a: "args ?v = Some ([0, 0], [0, 0],
      \<lparr>log_probs = [], predicted_ids = [], beam_ids = [], lengths = []\<rparr>)"
    by (simp add: model_defs ex_defs Let_def)
  have p: "fst (inputs_prepost_processing_fn ?d) (time ?v) (inputs ?v) = [11, 21]"
    by (simp add: model_defs ex_defs Let_def)
  have st: "step ?d (fst (inputs_prepost_processing_fn ?d) (time ?v) (inputs ?v)) (decoder_states ?v)
              (decode_params ?d () () ?h)
            = ([(''hidden'', [111, 121]), (''attention'', [11, 21])], [111, 121])"
    by (simp add: model_defs ex_defs Let_def numeral_2_eq_2)
  have ss: "sample_symbols ?h
              (compute_logits ?d ex_modality [(''hidden'', [111, 121]), (''attention'', [11, 21])])
              [0, 0] (finished ?v) [0, 0] (time ?v)
            = ([3, 4], [1, 0], [- 1 / 10, - 2 / 10], [1, 1])"
    by (simp add: model_defs ex_defs Let_def)
  have e: "embed_words ex_modality (snd (next_symbols ?h (time ?v) (Some [3, 4]))) (int32 (time ?v + 1))
             = [31, 41]"
    by (simp add: model_defs ex_defs Let_def)
  have q: "snd (inputs_prepost_processing_fn ?d) = snd ex_hooks" by (simp add: ex_defs)
  from beam_reorder_state_and_input [OF b [unfolded decode_body_def] m a st ss]
  show ?thesis using b m unfolding p e q by auto
qed

lemma logical_or_keeps_true:
  assumes "logical_or nf f = Inr f'" and "i < length f" and "f ! i" and "i < length f'"
  shows "f' ! i"
proof -
  consider (eq) "length nf = length f"
    | (left) "length nf \<noteq> length f" "length nf = 1"
    | (right) "length nf \<noteq> length f" "length nf \<noteq> 1" "length f = 1"
    | (bad) "length nf \<noteq> length f" "length nf \<noteq> 1" "length f \<noteq> 1"
    by blast
  then show ?thesis
  proof cases
    case eq
    with assms(1) have "f' = map2 (\<lambda>x y. x \<or> y) nf f" by (simp add: logical_or_def)
    with eq assms(2,3) show ?thesis by simp
  next
    case left
    with assms(1) have "f' = map (\<lambda>y. hd nf \<or> y) f" by (simp add: logical_or_def)
    with assms(2,3) show ?thesis by simp
  next
    case right
    with assms(1) have f': "f' = map (\<lambda>x. x \<or> hd f) nf" by (simp add: logical_or_def)
    from right(3) assms(2) have "i = 0" by simp
    with assms(2,3) have "hd f" by (cases f) simp_all
    with f' assms(4) show ?thesis by simp
  next
    case bad
    with assms(1) show ?thesis by (simp add: logical_or_def)
  qed
qed

lemma logical_or_length:
  assumes "logical_or nf f = Inr f'"
  shows "length f' = length f \<or> (length f = 1 \<and> length f' = length nf)"
  using assms by (auto simp add: logical_or_def split: if_splits)

lemma logical_or_empty:
  assumes "logical_or nf [] = Inr f'"
  shows "f' = []"
  using assms by (auto simp add: logical_or_def split: if_splits)

lemma body_finished_or:
  assumes "body_traininfer d h tm R pre post dp v = Inr v'"
  shows "\<exists>sids. logical_or (fst (next_symbols h (time v) sids)) (finished v) = Inr (finished v')"
  using body_traininfer_Inr [OF assms] by blast

lemma steps_finished_empty:
  assumes "steps_of (body_traininfer d h tm R pre post dp) k v = Inr v'" and "finished v = []"
  shows "finished v' = []"
  using assms
proof (induction k arbitrary: v)
  case 0
  then show ?case by simp
next
  case (Suc k)
  from Suc.prems(1) obtain w where w: "body_traininfer d h tm R pre post dp v = Inr w"
    and sw: "steps_of (body_traininfer d h tm R pre post dp) k w = Inr v'"
    by (auto split: sum.splits)
  from body_finished_or [OF w] Suc.prems(2) have "finished w = []"
    using logical_or_empty by auto
  from Suc.IH [OF sw this] show ?case .
qed

lemma steps_finished_monotonic:
  assumes "steps_of (body_traininfer d h tm R pre post dp) k v = Inr v'"
    and "i < length (finished v)" and "finished v ! i" and "i < length (finished v')"
  shows "finished v' ! i"
  using assms
proof (induction k arbitrary: v)
  case 0
  then show ?case by simp
next
  case (Suc k)
  from Suc.prems(1) obtain w where w: "body_traininfer d h tm R pre post dp v = Inr w"
    and sw: "steps_of (body_traininfer d h tm R pre post dp) k w = Inr v'"
    by (auto split: sum.splits)
  have ne: "finished w \<noteq> []"
  proof
    assume "finished w = []"
    from steps_finished_empty [OF sw this] Suc.prems(4) show False by simp
  qed
  from body_finished_or [OF w] obtain sids where
    lo: "logical_or (fst (next_symbols h (time v) sids)) (finished v) = Inr (finished w)" by blast
  have len: "i < length (finished w)"
  proof -
    from logical_or_length [OF lo] show ?thesis
    proof
      assume "length (finished w) = length (finished v)"
      with Suc.prems(2) show ?thesis by simp
    next
      assume "length (finished v) = 1 \<and> length (finished w) = length (fst (next_symbols h (time v) sids))"
      with Suc.prems(2) have "i = 0" by simp
      with ne show ?thesis by simp
    qed
  qed
  from logical_or_keeps_true [OF lo Suc.prems(2,3) len] have "finished w ! i" .
  from Suc.IH [OF sw len this Suc.prems(4)] show ?case .
qed

text \<open>
  Claim C2. The finished mask is monotonic: along every sequence of steps of the loop
  body, a lane whose flag is true stays true in every later mask that still has that
  lane, because the new mask of a step is \<^verbatim>\<open>tf.logical_or\<close> of the lanes the feedback
  policy newly reports with the previous mask.
\<close>

theorem finished_mask_monotonic:
  "(\<forall>k v'. steps_of (body_traininfer d h tm R pre post dp) k v = Inr v' \<longrightarrow>
            i < length (finished v) \<longrightarrow> finished v ! i \<longrightarrow> i < length (finished v') \<longrightarrow>
            finished v' ! i) \<and>
   (\<forall>v'. body_traininfer d h tm R pre post dp v = Inr v' \<longrightarrow>
          (\<exists>sids. logical_or (fst (next_symbols h (time v) sids)) (finished v) = Inr (finished v')))"
proof (intro conjI allI impI)
  fix k v'
  assume "steps_of (body_traininfer d h tm R pre post dp) k v = Inr v'"
    and "i < length (finished v)" and "finished v ! i" and "i < length (finished v')"
  then show "finished v' ! i" by (rule steps_finished_monotonic)
next
  fix v'
  assume "body_traininfer d h tm R pre post dp v = Inr v'"
  then show "\<exists>sids. logical_or (fst (next_symbols h (time v) sids)) (finished v) = Inr (finished v')"
    by (rule body_finished_or)
qed

theorem finished_mask_monotonic_witness:
  "\<exists>v1 v3.
     decode_body (ex_decoder INFER default_prepost_processing_fn) () ()
       (ex_beam_helper (\<lambda>t. [t = 0, False])) ex_modality
       (decode_init (ex_decoder INFER default_prepost_processing_fn) () ()
          (ex_beam_helper (\<lambda>t. [t = 0, False])) ex_modality) = Inr v1 \<and>
     steps_of (decode_body (ex_decoder INFER default_prepost_processing_fn) () ()
                 (ex_beam_helper (\<lambda>t. [t = 0, False])) ex_modality) (Suc (Suc 0)) v1 = Inr v3 \<and>
     finished v1 = [True, False] \<and>
     fst (next_symbols (ex_beam_helper (\<lambda>t. [t = 0, False])) 2 (Some [3, 4])) = [False, False] \<and>
     finished v3 ! 0 \<and> length (finished v3) = 2"
proof -
  let ?d = "ex_decoder INFER default_prepost_processing_fn"
  let ?h = "ex_beam_helper (\<lambda>t. [t = 0, False])"
  let ?v = "decode_init ?d () () ?h ex_modality"
  define v1 :: "(nat, nat, nat list) loop_vars" where
    "v1 = \<lparr>time = 1, inputs = [31, 41], decoder_states = [120, 110],
           outputs_ta = [(''hidden'', [Some [110, 120]])], finished = [True, False],
           args = Some ([- 1 / 10, - 2 / 10], [1, 1],
             \<lparr>log_probs = [Some [- 1 / 10, - 2 / 10]], predicted_ids = [Some [3, 4]],
              beam_ids = [Some [1, 0]], lengths = [Some [1, 1]]\<rparr>)\<rparr>"
  have b: "decode_body ?d () () ?h ex_modality ?v = Inr v1"
    by (simp add: v1_def model_defs ex_defs Let_def numeral_2_eq_2)
  have f1: "finished v1 = [True, False]" by (simp add: v1_def)
  have "\<exists>v3. steps_of (decode_body ?d () () ?h ex_modality) (Suc (Suc 0)) v1 = Inr v3 \<and>
          length (finished v3) = 2"
    by (simp add: v1_def model_defs ex_defs Let_def numeral_2_eq_2)
  then obtain v3 where s: "steps_of (decode_body ?d () () ?h ex_modality) (Suc (Suc 0)) v1 = Inr v3"
    and l3: "length (finished v3) = 2" by blast
  have n: "fst (next_symbols ?h 2 (Some [3, 4])) = [False, False]" by (simp add: ex_defs)
  note mono = finished_mask_monotonic [of ?d ?h ex_modality "decode_remover ?d"
      "fst (inputs_prepost_processing_fn ?d)" "snd (inputs_prepost_processing_fn ?d)"
      "decode_params ?d () () ?h" v1 0, THEN conjunct1, rule_format,
      OF s [unfolded decode_body_def]]
  have "finished v3 ! 0" by (rule mono) (simp_all add: f1 l3)
  with b s f1 n l3 show ?thesis by blast
qed

lemma compute_logits_step_frame:
  "compute_logits (d\<lparr>step := st\<rparr>) tm outputs = compute_logits d tm outputs"
  by (simp add: compute_logits_def)

lemma infer_branch_step_frame:
  "infer_branch (d\<lparr>step := st\<rparr>) h tm v inputs1 outputs nds = infer_branch d h tm v inputs1 outputs nds"
  by (simp add: infer_branch_def compute_logits_step_frame cong: option.case_cong)

lemma body_traininfer_step_frame:
  assumes "st (pre (time v) (inputs v)) (decoder_states v) dp
             = step d (pre (time v) (inputs v)) (decoder_states v) dp"
  shows "body_traininfer (d\<lparr>step := st\<rparr>) h tm R pre post dp v = body_traininfer d h tm R pre post dp v"
  using assms
  by (simp add: body_traininfer_def infer_branch_step_frame Let_def cong: sum.case_cong prod.case_cong)

text \<open>
  Claim C7, as amended. In the step taken at time \<open>t - 1\<close> the post-processing hook is
  invoked with two arguments. The first is the input of that step as it was handed to
  \<^verbatim>\<open>decoder.step\<close>, that is the carried input after the pre-processing hook, and in
  mode INFER that value gathered by the \<open>beam_ids\<close> of the step. The second is the raw
  embedding of the next input symbols for time \<open>t\<close>. Its result is the input carried
  into step \<open>t\<close>, and the transition call of step \<open>t\<close> reads \<^verbatim>\<open>decoder.step\<close> at the
  pre-processing hook's value on that carried input.
\<close>

theorem post_hook_arguments:
  assumes "body_traininfer d h tm R pre post dp v = Inr v'"
  shows "\<exists>sids prev.
           time v' = int32 (time v + 1) \<and>
           inputs v' = post (Some prev)
                         (embed_words tm (snd (next_symbols h (time v) sids)) (int32 (time v + 1))) \<and>
           (mode d \<noteq> INFER \<longrightarrow> sids = None \<and> prev = pre (time v) (inputs v)) \<and>
           (mode d = INFER \<longrightarrow>
              (\<exists>lp lens ista sample bids nlp nlens.
                 args v = Some (lp, lens, ista) \<and>
                 sample_symbols h
                   (compute_logits d tm
                      (fst (step d (pre (time v) (inputs v)) (decoder_states v) dp)))
                   lp (finished v) lens (time v) = (sample, bids, nlp, nlens) \<and>
                 sids = Some sample \<and>
                 gather_states (pre (time v) (inputs v)) bids = Inr prev)) \<and>
           (\<forall>st. st (pre (time v') (inputs v')) (decoder_states v') dp
                   = step d (pre (time v') (inputs v')) (decoder_states v') dp \<longrightarrow>
                 body_traininfer (d\<lparr>step := st\<rparr>) h tm R pre post dp v'
                   = body_traininfer d h tm R pre post dp v')"
proof -
  let ?in1 = "pre (time v) (inputs v)"
  from body_traininfer_Inr [OF assms] obtain outputs nds sids prev nds1 args1 where
    st: "step d ?in1 (decoder_states v) dp = (outputs, nds)" and
    ib: "infer_branch d h tm v ?in1 outputs nds = Inr (sids, prev, nds1, args1)" and
    t': "time v' = int32 (time v + 1)" and
    i': "inputs v' = post (Some prev)
           (embed_words tm (snd (next_symbols h (time v) sids)) (int32 (time v + 1)))"
    by blast
  have other: "mode d \<noteq> INFER \<longrightarrow> sids = None \<and> prev = ?in1"
  proof
    assume "mode d \<noteq> INFER"
    from infer_branch_other [OF this, of h tm v ?in1 outputs nds] ib
    show "sids = None \<and> prev = ?in1" by simp
  qed
  have infer: "mode d = INFER \<longrightarrow>
      (\<exists>lp lens ista sample bids nlp nlens.
         args v = Some (lp, lens, ista) \<and>
         sample_symbols h (compute_logits d tm (fst (step d ?in1 (decoder_states v) dp)))
           lp (finished v) lens (time v) = (sample, bids, nlp, nlens) \<and>
         sids = Some sample \<and> gather_states ?in1 bids = Inr prev)"
  proof
    assume "mode d = INFER"
    from infer_branch_INFER [OF ib this] show
      "\<exists>lp lens ista sample bids nlp nlens.
         args v = Some (lp, lens, ista) \<and>
         sample_symbols h (compute_logits d tm (fst (step d ?in1 (decoder_states v) dp)))
           lp (finished v) lens (time v) = (sample, bids, nlp, nlens) \<and>
         sids = Some sample \<and> gather_states ?in1 bids = Inr prev"
      unfolding st by auto
  qed
  have frame: "\<forall>st. st (pre (time v') (inputs v')) (decoder_states v') dp
                   = step d (pre (time v') (inputs v')) (decoder_states v') dp \<longrightarrow>
                 body_traininfer (d\<lparr>step := st\<rparr>) h tm R pre post dp v'
                   = body_traininfer d h tm R pre post dp v'"
    using body_traininfer_step_frame by blast
  from t' i' other infer frame show ?thesis by blast
qed

theorem post_hook_arguments_witness:
  "\<exists>v' sids prev.
     decode_body (ex_decoder INFER ex_hooks) () () (ex_beam_helper (\<lambda>t. [False, False])) ex_modality
       (decode_init (ex_decoder INFER ex_hooks) () () (ex_beam_helper (\<lambda>t. [False, False])) ex_modality)
       = Inr v' \<and>
     time v' = 1 \<and> sids = Some [3, 4] \<and> prev = [21, 11] \<and>
     gather_states [11, 21] [1, 0] = Inr prev \<and>
     inputs v' = snd ex_hooks (Some prev) [31, 41]"
proof -
  let ?d = "ex_decoder INFER ex_hooks"
  let ?h = "ex_beam_helper (\<lambda>t. [False, False])"
  let ?v = "decode_init ?d () () ?h ex_modality"
  obtain v' where b: "decode_body ?d () () ?h ex_modality ?v = Inr v'"
    by (simp add: model_defs ex_defs Let_def)
  have m: "mode ?d = INFER" by (simp add: ex_defs)
  have a: "args ?v = Some ([0, 0], [0, 0],
      \<lparr>log_probs = [], predicted_ids = [], beam_ids = [], lengths = []\<rparr>)"
    by (simp add: model_defs ex_defs Let_def)
  have p: "fst (inputs_prepost_processing_fn ?d) (time ?v) (inputs ?v) = [11, 21]"
    by (simp add: model_defs ex_defs Let_def)
  have ss: "\<And>lg. sample_symbols ?h lg [0, 0] (finished ?v) [0, 0] (time ?v)
            = ([3, 4], [1, 0], [- 1 / 10, - 2 / 10], [1, 1])"
    by (simp add: model_defs ex_defs Let_def)
  have t0: "time ?v = 0" by (simp add: decode_init_fields)
  have e: "embed_words ex_modality (snd (next_symbols ?h 0 (Some [3, 4]))) 1 = [31, 41]"
    by (simp add: model_defs ex_defs Let_def)
  have t1: "int32 1 = 1" by (simp add: int32_def)
  have q: "snd (inputs_prepost_processing_fn ?d) = snd ex_hooks" by (simp add: ex_defs)
  from post_hook_arguments [OF b [unfolded decode_body_def]] obtain sids prev where
    r: "time v' = int32 (time ?v + 1)"
       "inputs v' = snd (inputs_prepost_processing_fn ?d) (Some prev)
                      (embed_words ex_modality (snd (next_symbols ?h (time ?v) sids))
                         (int32 (time ?v + 1)))"
       "mode ?d = INFER \<longrightarrow>
          (\<exists>lp lens ista sample bids nlp nlens.
             args ?v = Some (lp, lens, ista) \<and>
             sample_symbols ?h
               (compute_logits ?d ex_modality
                  (fst (step ?d (fst (inputs_prepost_processing_fn ?d) (time ?v) (inputs ?v))
                          (decoder_states ?v) (decode_params ?d () () ?h))))
               lp (finished ?v) lens (time ?v) = (sample, bids, nlp, nlens) \<and>
             sids = Some sample \<and>
             gather_states (fst (inputs_prepost_processing_fn ?d) (time ?v) (inputs ?v)) bids = Inr prev)"
    by blast
  from r(3) m a ss have sd: "sids = Some [3, 4]" and g: "gather_states [11, 21] [1, 0] = Inr prev"
    unfolding p by auto
  from g have pv: "prev = [21, 11]" by (simp add: gather_states_def)
  from r(1,2) sd g pv b show ?thesis unfolding q t0 by (simp add: e t1)
qed

text \<open>
  Claim C7 as stated fails. With beam width two, \<open>beam_ids = [1, 0]\<close> and hooks that
  are not pass-throughs, the previous post-processed input is \<open>[10, 20]\<close> and the raw
  new input is \<open>[31, 41]\<close>; the hook on these two would give \<open>[41, 61]\<close>. The step
  carries \<open>[52, 52]\<close>, the hook's value on the pre-processed and reordered input
  \<open>[21, 11]\<close>, and the next transition call receives \<open>[53, 53]\<close>.
\<close>

theorem post_hook_arguments_counterexample:
  "decode_body (ex_decoder INFER ex_hooks) () () (ex_beam_helper (\<lambda>t. [False, False])) ex_modality
     (decode_init (ex_decoder INFER ex_hooks) () () (ex_beam_helper (\<lambda>t. [False, False])) ex_modality)
   = Inr \<lparr>time = 1, inputs = [52, 52], decoder_states = [121, 111],
          outputs_ta = [(''hidden'', [Some [111, 121]])], finished = [False, False],
          args = Some ([- 1 / 10, - 2 / 10], [1, 1],
            \<lparr>log_probs = [Some [- 1 / 10, - 2 / 10]], predicted_ids = [Some [3, 4]],
             beam_ids = [Some [1, 0]], lengths = [Some [1, 1]]\<rparr>)\<rparr> \<and>
   inputs (decode_init (ex_decoder INFER ex_hooks) () () (ex_beam_helper (\<lambda>t. [False, False]))
             ex_modality) = [10, 20] \<and>
   embed_words ex_modality
     (snd (next_symbols (ex_beam_helper (\<lambda>t. [False, False])) 0 (Some [3, 4]))) 1 = [31, 41] \<and>
   snd (inputs_prepost_processing_fn (ex_decoder INFER ex_hooks)) (Some [10, 20]) [31, 41] = [41, 61] \<and>
   [52, 52] \<noteq> snd (inputs_prepost_processing_fn (ex_decoder INFER ex_hooks)) (Some [10, 20]) [31, 41] \<and>
   snd (inputs_prepost_processing_fn (ex_decoder INFER ex_hooks)) (Some [21, 11]) [31, 41] = [52, 52] \<and>
   fst (inputs_prepost_processing_fn (ex_decoder INFER ex_hooks)) 1 [52, 52] = [53, 53]"
  by (simp add: model_defs ex_defs Let_def numeral_2_eq_2)

lemma filter_retained_self:
  "filter (\<lambda>f. f \<in> set (filter P fs)) fs = filter P fs"
  by (rule filter_cong) auto

lemma retained_fields_init:
  "filter (\<lambda>f. f \<in> set (retained_fields (DecoderOutputRemover_init m fs ign))) fs
     = retained_fields (DecoderOutputRemover_init m fs ign)"
proof -
  have "filter (\<lambda>f. f \<in> set fs) fs = fs" by (induction fs) auto
  moreover have "\<And>ignored. filter (\<lambda>f. f \<in> set (filter (\<lambda>f. f \<notin> set ignored) fs)) fs
      = filter (\<lambda>f. f \<notin> set ignored) fs"
    by (rule filter_retained_self)
  ultimately show ?thesis
    by (simp add: DecoderOutputRemover_init_def split: option.splits del: set_filter)
qed

lemma retained_fields_idem:
  "retained_fields (DecoderOutputRemover_init m
       (retained_fields (DecoderOutputRemover_init m fs ign)) ign)
     = retained_fields (DecoderOutputRemover_init m fs ign)"
  by (simp add: DecoderOutputRemover_init_def split: option.splits)

lemma remover_apply_idem:
  "remover_apply r (remover_apply r ins) = remover_apply r ins"
  by (simp add: remover_apply_def)

lemma map_fst_remover_apply:
  "map fst (remover_apply r ins) = filter (\<lambda>f. f \<in> set (retained_fields r)) (map fst ins)"
  by (simp add: remover_apply_def filter_map comp_def)

lemma decode_init_buffer_fields:
  "map fst (outputs_ta (decode_init d e b h tm)) = retained_fields (decode_remover d)"
  by (simp add: decode_init_fields comp_def map_fst_remover_apply [unfolded comp_def]
      decode_remover_def retained_fields_init)

lemma map_structure_write_fields:
  assumes "map_structure_write t tas outs = Inr tas'"
  shows "map fst tas' = map fst tas \<and> map fst outs = map fst tas"
  using assms
  by (induction t tas outs arbitrary: tas' rule: map_structure_write.induct)
     (auto split: if_splits sum.splits)

lemma body_buffer_fields:
  assumes "body_traininfer d h tm R pre post dp v = Inr v'"
  shows "map fst (outputs_ta v') = map fst (outputs_ta v)"
    and "map fst (remover_apply R (fst (step d (pre (time v) (inputs v)) (decoder_states v) dp)))
           = map fst (outputs_ta v)"
proof -
  from body_traininfer_Inr [OF assms] obtain outputs nds where
    st: "step d (pre (time v) (inputs v)) (decoder_states v) dp = (outputs, nds)" and
    w: "map_structure_write (time v) (outputs_ta v) (remover_apply R outputs) = Inr (outputs_ta v')"
    by blast
  from map_structure_write_fields [OF w] st
  show "map fst (outputs_ta v') = map fst (outputs_ta v)"
    and "map fst (remover_apply R (fst (step d (pre (time v) (inputs v)) (decoder_states v) dp)))
           = map fst (outputs_ta v)" by simp_all
qed

lemma steps_buffer_fields:
  assumes "steps_of (body_traininfer d h tm R pre post dp) n v = Inr v'"
  shows "map fst (outputs_ta v') = map fst (outputs_ta v)"
  using assms
proof (induction n arbitrary: v)
  case 0
  then show ?case by simp
next
  case (Suc n)
  from Suc.prems obtain w where w: "body_traininfer d h tm R pre post dp v = Inr w"
    and sw: "steps_of (body_traininfer d h tm R pre post dp) n w = Inr v'"
    by (auto split: sum.splits)
  from Suc.IH [OF sw] body_buffer_fields(1) [OF w] show ?case by simp
qed

lemma decode_state_buffer_fields:
  assumes "decode_state d e b h tm n = Inr v"
  shows "map fst (outputs_ta v) = retained_fields (decode_remover d)"
  using steps_buffer_fields [OF assms [unfolded decode_state_def decode_body_def]]
  by (simp add: decode_init_buffer_fields)

lemma step_record_fields:
  assumes "decode_state d e b h tm n = Inr v" and "decode_body d e b h tm v = Inr v'"
  shows "map fst (step_record d e b h v) = retained_fields (decode_remover d)"
  using body_buffer_fields(2) [OF assms(2) [unfolded decode_body_def]]
    decode_state_buffer_fields [OF assms(1)]
  by (simp add: step_record_def step_input_def)

text \<open>
  Claim C8. The output schema filter is idempotent and constant for the whole decode
  call. Filtering the retained fields again with the same ignore-list gives the same
  retained fields, and applying the remover twice to a record gives what applying it
  once gives. The remover is computed once by the setup, before the loop, and the loop
  body receives that one value at every step. The field names of the output buffers
  are the retained fields initially and after every number of steps, and the record
  that each step writes has exactly the retained fields.
\<close>

theorem schema_filter_idempotent_and_constant:
  "retained_fields (DecoderOutputRemover_init m
       (retained_fields (DecoderOutputRemover_init m all_fields ignore_fields)) ignore_fields)
     = retained_fields (DecoderOutputRemover_init m all_fields ignore_fields) \<and>
   remover_apply r (remover_apply r ins) = remover_apply r ins \<and>
   fst (decode_setup d e b h tm)
     = DecoderOutputRemover_init (mode d) (map fst (output_dtype d)) (output_ignore_fields d) \<and>
   dynamic_decode d e b h tm =
     (case while_loop loop_cond
             (body_traininfer d h tm (fst (decode_setup d e b h tm))
                (fst (inputs_prepost_processing_fn d)) (snd (inputs_prepost_processing_fn d))
                (decode_params d e b h))
             (decode_init d e b h tm) of
        None \<Rightarrow> None
      | Some (Inl err) \<Rightarrow> Some (Inl err)
      | Some (Inr res) \<Rightarrow> Some (finalize d h res)) \<and>
   map fst (outputs_ta (decode_init d e b h tm)) = retained_fields (fst (decode_setup d e b h tm)) \<and>
   (\<forall>n v. decode_state d e b h tm n = Inr v \<longrightarrow>
      map fst (outputs_ta v) = retained_fields (fst (decode_setup d e b h tm)) \<and>
      (\<forall>v'. decode_body d e b h tm v = Inr v' \<longrightarrow>
         map fst (step_record d e b h v) = retained_fields (fst (decode_setup d e b h tm))))"
proof -
  have r: "fst (decode_setup d e b h tm) = decode_remover d" by (simp add: decode_setup_eq)
  have dd: "dynamic_decode d e b h tm =
     (case while_loop loop_cond
             (body_traininfer d h tm (decode_remover d)
                (fst (inputs_prepost_processing_fn d)) (snd (inputs_prepost_processing_fn d))
                (decode_params d e b h))
             (decode_init d e b h tm) of
        None \<Rightarrow> None
      | Some (Inl err) \<Rightarrow> Some (Inl err)
      | Some (Inr res) \<Rightarrow> Some (finalize d h res))"
    by (simp add: dynamic_decode_eq decode_loop_def decode_body_def)
  have run: "\<forall>n v. decode_state d e b h tm n = Inr v \<longrightarrow>
      map fst (outputs_ta v) = retained_fields (decode_remover d) \<and>
      (\<forall>v'. decode_body d e b h tm v = Inr v' \<longrightarrow>
         map fst (step_record d e b h v) = retained_fields (decode_remover d))"
  proof (intro allI impI conjI)
    fix n v assume st: "decode_state d e b h tm n = Inr v"
    then show "map fst (outputs_ta v) = retained_fields (decode_remover d)"
      by (rule decode_state_buffer_fields)
    fix v' assume "decode_body d e b h tm v = Inr v'"
    with st show "map fst (step_record d e b h v) = retained_fields (decode_remover d)"
      by (rule step_record_fields)
  qed
  show ?thesis
    unfolding r
    by (intro conjI retained_fields_idem remover_apply_idem dd decode_init_buffer_fields run)
       (rule decode_remover_def)
qed

theorem schema_filter_idempotent_and_constant_witness:
  "retained_fields (DecoderOutputRemover_init INFER [''hidden'', ''attention''] (Some [''attention'']))
     = [''hidden''] \<and>
   retained_fields (DecoderOutputRemover_init INFER [''hidden''] (Some [''attention''])) = [''hidden''] \<and>
   retained_fields (fst (decode_setup (ex_decoder INFER ex_hooks) () ()
      (ex_beam_helper (\<lambda>t. [False, False])) ex_modality)) = [''hidden''] \<and>
   map fst (outputs_ta (decode_init (ex_decoder INFER ex_hooks) () ()
      (ex_beam_helper (\<lambda>t. [False, False])) ex_modality)) = [''hidden''] \<and>
   (\<exists>v v'. decode_state (ex_decoder INFER ex_hooks) () ()
              (ex_beam_helper (\<lambda>t. [False, False])) ex_modality (Suc 0) = Inr v \<and>
            decode_body (ex_decoder INFER ex_hooks) () ()
              (ex_beam_helper (\<lambda>t. [False, False])) ex_modality v = Inr v' \<and>
            map fst (outputs_ta v) = [''hidden''] \<and>
            map fst (step_record (ex_decoder INFER ex_hooks) () ()
              (ex_beam_helper (\<lambda>t. [False, False])) v) = [''hidden''])"
proof -
  let ?d = "ex_decoder INFER ex_hooks"
  let ?h = "ex_beam_helper (\<lambda>t. [False, False])"
  note t = schema_filter_idempotent_and_constant [of INFER "[''hidden'', ''attention'']"
      "Some [''attention'']" "decode_remover ?d" "[] :: nat list namedtuple" ?d "()" "()" ?h ex_modality]
  have r1: "retained_fields (DecoderOutputRemover_init INFER [''hidden'', ''attention'']
              (Some [''attention''])) = [''hidden'']"
    by (simp add: DecoderOutputRemover_init_def)
  have r2: "retained_fields (fst (decode_setup ?d () () ?h ex_modality)) = [''hidden'']"
    unfolding t [THEN conjunct2, THEN conjunct2, THEN conjunct1]
    by (simp add: DecoderOutputRemover_init_def ex_defs)
  have "\<exists>v. decode_state ?d () () ?h ex_modality (Suc 0) = Inr v \<and>
          (\<exists>v'. decode_body ?d () () ?h ex_modality v = Inr v')"
    by (simp add: decode_state_def model_defs ex_defs Let_def numeral_2_eq_2)
  then obtain v v' where v: "decode_state ?d () () ?h ex_modality (Suc 0) = Inr v"
    and v': "decode_body ?d () () ?h ex_modality v = Inr v'" by blast
  note run = t [THEN conjunct2, THEN conjunct2, THEN conjunct2, THEN conjunct2, THEN conjunct2,
      rule_format, OF v]
  have a: "retained_fields (DecoderOutputRemover_init INFER [''hidden''] (Some [''attention'']))
             = [''hidden'']"
    using t [THEN conjunct1] unfolding r1 .
  have b: "map fst (outputs_ta (decode_init ?d () () ?h ex_modality)) = [''hidden'']"
    using t [THEN conjunct2, THEN conjunct2, THEN conjunct2, THEN conjunct2, THEN conjunct1]
    unfolding r2 .
  have c: "map fst (outputs_ta v) = [''hidden'']"
    using run [THEN conjunct1] unfolding r2 .
  have d: "map fst (step_record ?d () () ?h v) = [''hidden'']"
    using run [THEN conjunct2, rule_format, OF v'] unfolding r2 .
  from v v' c d have "\<exists>v v'. decode_state ?d () () ?h ex_modality (Suc 0) = Inr v \<and>
      decode_body ?d () () ?h ex_modality v = Inr v' \<and>
      map fst (outputs_ta v) = [''hidden''] \<and> map fst (step_record ?d () () ?h v) = [''hidden'']"
    by (intro exI [of _ v] exI [of _ v'] conjI)
  with r1 a r2 b show ?thesis by (intro conjI)
qed



lemma decode_init_buffers:
  "outputs_ta (decode_init d e b h tm) = map (\<lambda>f. (f, [])) (retained_fields (decode_remover d))"
proof -
  have "outputs_ta (decode_init d e b h tm)
          = map (\<lambda>f. (f, [])) (map fst (outputs_ta (decode_init d e b h tm)))"
    by (simp add: decode_init_fields comp_def)
  then show ?thesis by (simp only: decode_init_buffer_fields)
qed













lemma ta_write_next:
  "ta_write (map Some vs) (int (length vs)) v = Inr (map Some (vs @ [v]))"
  by (simp add: ta_write_def)

lemma ta_write_full:
  assumes "ta_write (map Some vs) i v = Inr ta'" and "i \<le> int (length vs)"
  shows "i = int (length vs) \<and> ta' = map Some (vs @ [v])"
proof -
  from assms(1) have i0: "0 \<le> i" by (auto simp add: ta_write_def split: if_splits)
  have "\<not> nat i < length vs"
  proof
    assume "nat i < length vs"
    with assms(1) i0 show False by (simp add: ta_write_def)
  qed
  with assms(2) i0 have "i = int (length vs)" by simp
  with assms(1) ta_write_next [of vs v] show ?thesis by simp
qed


lemma map_structure_write_append:
  assumes "map_structure_write t tas outs = Inr tas'"
    and "\<And>fta. fta \<in> set tas \<Longrightarrow> \<exists>vs. snd fta = map Some vs \<and> length vs = n"
    and "t \<le> int n"
  shows "length outs = length tas \<and> length tas' = length tas \<and> (tas \<noteq> [] \<longrightarrow> t = int n) \<and>
         (\<forall>k<length tas. tas' ! k = (fst (tas ! k), snd (tas ! k) @ [Some (snd (outs ! k))]))"
  using assms
proof (induction t tas outs arbitrary: tas' rule: map_structure_write.induct)
  case (1 t)
  then show ?case by simp
next
  case (2 t f ta tas g out outs)
  from "2.prems"(1) obtain ta' rest where fg: "f = g"
    and w: "ta_write ta t out = Inr ta'"
    and r: "map_structure_write t tas outs = Inr rest"
    and t': "tas' = (f, ta') # rest"
    by (auto split: if_splits sum.splits)
  from "2.prems"(2) [of "(f, ta)"] obtain vs where vs: "ta = map Some vs" "length vs = n" by auto
  from ta_write_full [of vs t out ta'] w vs "2.prems"(3)
  have tn: "t = int n" and ta': "ta' = ta @ [Some out]" by simp_all
  have "\<And>fta. fta \<in> set tas \<Longrightarrow> \<exists>vs. snd fta = map Some vs \<and> length vs = n"
    using "2.prems"(2) by simp
  from "2.IH" [OF _ w r this "2.prems"(3)] fg have ih: "length outs = length tas \<and>
         length rest = length tas \<and>
         (\<forall>k<length tas. rest ! k = (fst (tas ! k), snd (tas ! k) @ [Some (snd (outs ! k))]))"
    by simp
  show ?case
  proof (intro conjI allI impI)
    show "length ((g, out) # outs) = length ((f, ta) # tas)" using ih by simp
    show "length tas' = length ((f, ta) # tas)" using ih t' by simp
    show "t = int n" by (rule tn)
    fix k assume "k < length ((f, ta) # tas)"
    then show "tas' ! k = (fst (((f, ta) # tas) ! k),
        snd (((f, ta) # tas) ! k) @ [Some (snd (((g, out) # outs) ! k))])"
      using ih t' ta' by (cases k) simp_all
  qed
qed simp_all

lemma decode_state_0: "decode_state d e b h tm 0 = Inr (decode_init d e b h tm)"
  by (simp add: decode_state_def)

lemma decode_state_Suc:
  "decode_state d e b h tm (Suc n) =
     (case decode_state d e b h tm n of Inl err \<Rightarrow> Inl err | Inr u \<Rightarrow> decode_body d e b h tm u)"
  unfolding decode_state_def by (rule steps_of_Suc_right)

lemma run_start:
  assumes "\<And>t. t \<le> T \<Longrightarrow> decode_state d e b h tm t = Inr (\<sigma> t)"
  shows "\<sigma> 0 = decode_init d e b h tm"
  using assms [of 0] by (simp add: decode_state_0)

lemma run_step:
  assumes "\<And>t. t \<le> T \<Longrightarrow> decode_state d e b h tm t = Inr (\<sigma> t)" and "n < T"
  shows "decode_body d e b h tm (\<sigma> n) = Inr (\<sigma> (Suc n))"
proof -
  from assms(2) have "n \<le> T" "Suc n \<le> T" by simp_all
  from assms(1) [OF this(1)] assms(1) [OF this(2)] show ?thesis
    by (simp add: decode_state_Suc)
qed

lemma body_writes_step_record:
  assumes "decode_body d e b h tm v = Inr v'"
  shows "time v' = int32 (time v + 1)"
    and "map_structure_write (time v) (outputs_ta v) (step_record d e b h v) = Inr (outputs_ta v')"
proof -
  from body_traininfer_Inr [OF assms [unfolded decode_body_def]] obtain outputs nds where
    st: "step d (fst (inputs_prepost_processing_fn d) (time v) (inputs v)) (decoder_states v)
           (decode_params d e b h) = (outputs, nds)" and
    w: "map_structure_write (time v) (outputs_ta v) (remover_apply (decode_remover d) outputs)
          = Inr (outputs_ta v')" and
    t: "time v' = int32 (time v + 1)" by blast
  from t show "time v' = int32 (time v + 1)" .
  from w st show "map_structure_write (time v) (outputs_ta v) (step_record d e b h v)
      = Inr (outputs_ta v')"
    by (simp add: step_record_def step_input_def)
qed

lemma run_buffers:
  assumes run: "\<And>t. t \<le> T \<Longrightarrow> decode_state d e b h tm t = Inr (\<sigma> t)"
  shows "n \<le> T \<Longrightarrow>
         time (\<sigma> n) = int32 (int n) \<and>
         outputs_ta (\<sigma> n) =
           map (\<lambda>k. (retained_fields (decode_remover d) ! k,
                      map (\<lambda>t. Some (snd (step_record d e b h (\<sigma> t) ! k))) [0..<n]))
             [0..<length (retained_fields (decode_remover d))]"
proof (induction n)
  case 0
  have "map (\<lambda>f. (f, [])) fs = map (\<lambda>k. (fs ! k, [])) [0..<length fs]" for fs :: "string list"
    by (rule nth_equalityI) simp_all
  then show ?case
    by (simp add: run_start [OF run] decode_init_fields(1) decode_init_buffers int32_def)
next
  case (Suc n)
  let ?fs = "retained_fields (decode_remover d)"
  let ?g = "\<lambda>t k. snd (step_record d e b h (\<sigma> t) ! k)"
  from Suc.prems have n: "n < T" "n \<le> T" by simp_all
  from Suc.IH [OF n(2)] have tn: "time (\<sigma> n) = int32 (int n)"
    and bn: "outputs_ta (\<sigma> n) = map (\<lambda>k. (?fs ! k, map (\<lambda>t. Some (?g t k)) [0..<n])) [0..<length ?fs]"
    by simp_all
  note b = body_writes_step_record [OF run_step [OF run n(1)]]
  have full: "\<And>fta. fta \<in> set (outputs_ta (\<sigma> n)) \<Longrightarrow>
      \<exists>vs. snd fta = map Some vs \<and> length vs = n"
  proof -
    fix fta assume "fta \<in> set (outputs_ta (\<sigma> n))"
    then obtain k where "fta = (?fs ! k, map (\<lambda>t. Some (?g t k)) [0..<n])"
      unfolding bn by auto
    then have "snd fta = map Some (map (\<lambda>t. ?g t k) [0..<n])" by (simp add: comp_def)
    then show "\<exists>vs. snd fta = map Some vs \<and> length vs = n"
      by (intro exI [of _ "map (\<lambda>t. ?g t k) [0..<n]"]) simp
  qed
  have le: "time (\<sigma> n) \<le> int n" unfolding tn by (rule int32_le) simp
  from map_structure_write_append [OF b(2) full le]
  have len: "length (outputs_ta (\<sigma> (Suc n))) = length (outputs_ta (\<sigma> n))"
    and nth: "\<And>k. k < length (outputs_ta (\<sigma> n)) \<Longrightarrow>
        outputs_ta (\<sigma> (Suc n)) ! k =
          (fst (outputs_ta (\<sigma> n) ! k),
           snd (outputs_ta (\<sigma> n) ! k) @ [Some (snd (step_record d e b h (\<sigma> n) ! k))])"
    by blast+
  have ln: "length (outputs_ta (\<sigma> n)) = length ?fs" unfolding bn by simp
  have "outputs_ta (\<sigma> (Suc n)) =
      map (\<lambda>k. (?fs ! k, map (\<lambda>t. Some (?g t k)) [0..<Suc n])) [0..<length ?fs]"
  proof (rule nth_equalityI)
    show "length (outputs_ta (\<sigma> (Suc n))) =
        length (map (\<lambda>k. (?fs ! k, map (\<lambda>t. Some (?g t k)) [0..<Suc n])) [0..<length ?fs])"
      using len ln by simp
  next
    fix k assume "k < length (outputs_ta (\<sigma> (Suc n)))"
    then have k: "k < length ?fs" using len ln by simp
    then have k': "k < length (outputs_ta (\<sigma> n))" using ln by simp
    have "outputs_ta (\<sigma> n) ! k = (?fs ! k, map (\<lambda>t. Some (?g t k)) [0..<n])"
      unfolding bn using k by simp
    with nth [OF k'] k show "outputs_ta (\<sigma> (Suc n)) ! k =
        map (\<lambda>k. (?fs ! k, map (\<lambda>t. Some (?g t k)) [0..<Suc n])) [0..<length ?fs] ! k"
      by simp
  qed
  moreover have "time (\<sigma> (Suc n)) = int32 (int (Suc n))"
    using b(1) tn int32_succ [of "int n"] by (simp add: ac_simps)
  ultimately show ?case by simp
qed




lemma write_infer_status_next:
  assumes "length a = n" "length p = n" "length c = n" "length l = n"
  shows "write_infer_status (int n)
           \<lparr>log_probs = map Some a, predicted_ids = map Some p, beam_ids = map Some c,
            lengths = map Some l\<rparr> st
         = Inr \<lparr>log_probs = map Some (a @ [log_probs st]),
                predicted_ids = map Some (p @ [predicted_ids st]),
                beam_ids = map Some (c @ [beam_ids st]),
                lengths = map Some (l @ [lengths st])\<rparr>"
  using assms ta_write_next [of a "log_probs st"] ta_write_next [of p "predicted_ids st"]
    ta_write_next [of c "beam_ids st"] ta_write_next [of l "lengths st"]
  by (simp add: write_infer_status_def)

lemma write_infer_status_full:
  assumes "write_infer_status t
             \<lparr>log_probs = map Some a, predicted_ids = map Some p, beam_ids = map Some c,
              lengths = map Some l\<rparr> st = Inr ista'"
    and "length a = n" "length p = n" "length c = n" "length l = n" and "t \<le> int n"
  shows "t = int n"
proof -
  from assms(1) obtain lp_ta where "ta_write (map Some a) t (log_probs st) = Inr lp_ta"
    by (auto simp add: write_infer_status_def split: sum.splits)
  from ta_write_full [OF this] assms(2,6) show ?thesis by simp
qed

lemma body_args_INFER:
  assumes "decode_body d e b h tm v = Inr v'" and "mode d = INFER"
    and "args v = Some (lp, lens, \<lparr>log_probs = map Some a, predicted_ids = map Some p,
                                    beam_ids = map Some c, lengths = map Some l\<rparr>)"
    and "length a = n" "length p = n" "length c = n" "length l = n" and "time v \<le> int n"
  shows "time v = int n \<and>
         (\<exists>sample bids nlp nlens.
           sample_symbols h
             (compute_logits d tm
                (fst (step d (step_input d v) (decoder_states v) (decode_params d e b h))))
             lp (finished v) lens (time v) = (sample, bids, nlp, nlens) \<and>
           args v' = Some (nlp, nlens,
             \<lparr>log_probs = map Some (a @ [nlp]), predicted_ids = map Some (p @ [sample]),
              beam_ids = map Some (c @ [bids]), lengths = map Some (l @ [nlens])\<rparr>))"
proof -
  let ?in1 = "fst (inputs_prepost_processing_fn d) (time v) (inputs v)"
  from body_traininfer_Inr [OF assms(1) [unfolded decode_body_def]]
  obtain outputs nds sids prev nds1 args1 where
    st: "step d ?in1 (decoder_states v) (decode_params d e b h) = (outputs, nds)" and
    ib: "infer_branch d h tm v ?in1 outputs nds = Inr (sids, prev, nds1, args1)" and
    a': "args v' = args1" by blast
  from infer_branch_INFER [OF ib assms(2)] assms(3) obtain sample bids nlp nlens ista1 where
    ss: "sample_symbols h (compute_logits d tm outputs) lp (finished v) lens (time v)
           = (sample, bids, nlp, nlens)" and
    w: "write_infer_status (time v)
          \<lparr>log_probs = map Some a, predicted_ids = map Some p, beam_ids = map Some c,
           lengths = map Some l\<rparr>
          \<lparr>log_probs = nlp, predicted_ids = sample, beam_ids = bids, lengths = nlens\<rparr> = Inr ista1" and
    a1: "args1 = Some (nlp, nlens, ista1)" by auto
  from write_infer_status_full [OF w assms(4-8)] have tv: "time v = int n" .
  from w [unfolded tv] write_infer_status_next [OF assms(4-7),
      of "\<lparr>log_probs = nlp, predicted_ids = sample, beam_ids = bids, lengths = nlens\<rparr>"]
  have "ista1 = \<lparr>log_probs = map Some (a @ [nlp]), predicted_ids = map Some (p @ [sample]),
              beam_ids = map Some (c @ [bids]), lengths = map Some (l @ [nlens])\<rparr>" by simp
  with ss a' a1 st tv show ?thesis by (simp add: step_input_def)
qed


lemma run_status:
  assumes run: "\<And>t. t \<le> T \<Longrightarrow> decode_state d e b h tm t = Inr (\<sigma> t)"
    and m: "mode d = INFER"
  shows "n \<le> T \<Longrightarrow>
         \<exists>lp lens a p c l.
           args (\<sigma> n) = Some (lp, lens, \<lparr>log_probs = map Some a, predicted_ids = map Some p,
                                          beam_ids = map Some c, lengths = map Some l\<rparr>) \<and>
           length a = n \<and> length p = n \<and> length c = n \<and> length l = n \<and>
           (\<forall>t<n. a ! t = fst (the (args (\<sigma> (Suc t)))))"
proof (induction n)
  case 0
  have "args (\<sigma> 0) = Some (replicate (length (snd (init_symbols h))) 0,
      replicate (length (snd (init_symbols h))) 0,
      \<lparr>log_probs = map Some [], predicted_ids = map Some [], beam_ids = map Some [],
       lengths = map Some []\<rparr>)"
    by (simp add: run_start [OF run] decode_init_fields m)
  then show ?case
    apply (intro exI [of _ "replicate (length (snd (init_symbols h))) 0"])
    apply (rule exI [of _ "[]"])
    apply (rule exI [of _ "[]"])
    apply (rule exI [of _ "[]"])
    apply (rule exI [of _ "[]"])
    by simp
next
  case (Suc n)
  from Suc.prems have n: "n < T" "n \<le> T" by simp_all
  from Suc.IH [OF n(2)] obtain lp lens a p c l where
    a: "args (\<sigma> n) = Some (lp, lens, \<lparr>log_probs = map Some a, predicted_ids = map Some p,
                                          beam_ids = map Some c, lengths = map Some l\<rparr>)"
    and len: "length a = n" "length p = n" "length c = n" "length l = n"
    and hist: "\<forall>t<n. a ! t = fst (the (args (\<sigma> (Suc t))))" by blast
  from run_buffers [OF run n(2)] have tn: "time (\<sigma> n) = int32 (int n)" by simp
  have le: "time (\<sigma> n) \<le> int n" unfolding tn by (rule int32_le) simp
  from body_args_INFER [OF run_step [OF run n(1)] m a len le]
  obtain sample bids nlp nlens where
    a': "args (\<sigma> (Suc n)) = Some (nlp, nlens,
       \<lparr>log_probs = map Some (a @ [nlp]), predicted_ids = map Some (p @ [sample]),
        beam_ids = map Some (c @ [bids]), lengths = map Some (l @ [nlens])\<rparr>)" by auto
  have len': "length (a @ [nlp]) = Suc n" "length (p @ [sample]) = Suc n"
    "length (c @ [bids]) = Suc n" "length (l @ [nlens]) = Suc n" using len by simp_all
  have hist': "\<forall>t<Suc n. (a @ [nlp]) ! t = fst (the (args (\<sigma> (Suc t))))"
  proof (intro allI impI)
    fix t assume "t < Suc n"
    then consider "t < n" | "t = n" by arith
    then show "(a @ [nlp]) ! t = fst (the (args (\<sigma> (Suc t))))"
    proof cases
      case 1
      with hist len(1) show ?thesis by (simp add: nth_append)
    next
      case 2
      with a' len(1) show ?thesis by (simp add: nth_append)
    qed
  qed
  show ?case
    apply (rule exI [of _ nlp])
    apply (rule exI [of _ nlens])
    apply (rule exI [of _ "a @ [nlp]"])
    apply (rule exI [of _ "p @ [sample]"])
    apply (rule exI [of _ "c @ [bids]"])
    apply (rule exI [of _ "l @ [nlens]"])
    using a' len' hist' by simp
qed

lemma run_time_INFER:
  assumes run: "\<And>t. t \<le> T \<Longrightarrow> decode_state d e b h tm t = Inr (\<sigma> t)"
    and m: "mode d = INFER" and n: "n < T"
  shows "n < 2 ^ 31 \<and> time (\<sigma> n) = int n"
proof -
  from n have n': "n \<le> T" by simp
  from run_status [OF run m n'] obtain lp lens a p c l where
    a: "args (\<sigma> n) = Some (lp, lens, \<lparr>log_probs = map Some a, predicted_ids = map Some p,
                                          beam_ids = map Some c, lengths = map Some l\<rparr>)"
    and len: "length a = n" "length p = n" "length c = n" "length l = n" by blast
  from run_buffers [OF run n'] have tn: "time (\<sigma> n) = int32 (int n)" by simp
  have le: "time (\<sigma> n) \<le> int n" unfolding tn by (rule int32_le) simp
  from body_args_INFER [OF run_step [OF run n] m a len le] have t: "time (\<sigma> n) = int n" by blast
  with tn have "int32 (int n) = int n" by simp
  from int32_nat_fixed [OF this] t show ?thesis by simp
qed








section \<open>Runs of the concrete beam helper\<close>

text \<open>
  The concrete decoder with the beam helper does not fail as long as the time is not
  negative: after every number of steps up to \<open>2^31\<close> the loop variables have two
  lanes, full buffers and a mask that holds the lanes reported so far. After \<open>2^31\<close>
  steps the time has wrapped around to \<open>-2^31\<close>, and the next step fails in its write.
\<close>

lemma length_2_cases: "length xs = 2 \<Longrightarrow> \<exists>x y. xs = [x, y]"
  by (cases xs; cases "tl xs") auto

lemma steps_of_Inl_le:
  assumes "steps_of body m vars = Inl err" and "m \<le> n"
  shows "steps_of body n vars = Inl err"
  using steps_of_add [of body m "n - m" vars] assms by simp

lemma decode_state_time:
  "decode_state d e b h tm n = Inr u \<Longrightarrow> time u = int32 (int n)"
proof (induction n arbitrary: u)
  case 0
  then have "u = decode_init d e b h tm" by (simp add: decode_state_0)
  then show ?case by (simp add: decode_init_fields int32_def)
next
  case (Suc n)
  from Suc.prems obtain w where w: "decode_state d e b h tm n = Inr w"
    and b: "decode_body d e b h tm w = Inr u"
    by (auto simp add: decode_state_Suc split: sum.splits)
  from body_writes_step_record(1) [OF b] Suc.IH [OF w] int32_succ [of "int n"]
  show ?case by (simp add: ac_simps)
qed

lemma ex_beam_progress:
  assumes "time u = int n" and "length (inputs u) = 2" and "length (decoder_states u) = 2"
    and "outputs_ta u = [(''hidden'', map Some vs)]" and "length vs = n"
    and "length (finished u) = 2" and "length (fin (int n)) = 2"
    and "args u = Some (lp, lens, \<lparr>log_probs = map Some a, predicted_ids = map Some p,
                                   beam_ids = map Some c, lengths = map Some l\<rparr>)"
    and "length a = n" "length p = n" "length c = n" "length l = n"
  shows "\<exists>u' vs' lp' lens' a' p' c' l'.
           decode_body (ex_decoder INFER default_prepost_processing_fn) () ()
             (ex_beam_helper fin) ex_modality u = Inr u' \<and>
           length (inputs u') = 2 \<and> length (decoder_states u') = 2 \<and>
           outputs_ta u' = [(''hidden'', map Some vs')] \<and> length vs' = Suc n \<and>
           finished u' = map2 (\<lambda>x y. x \<or> y) (fin (int n)) (finished u) \<and>
           args u' = Some (lp', lens', \<lparr>log_probs = map Some a', predicted_ids = map Some p',
                                         beam_ids = map Some c', lengths = map Some l'\<rparr>) \<and>
           length a' = Suc n \<and> length p' = Suc n \<and> length c' = Suc n \<and> length l' = Suc n"
proof -
  let ?d = "ex_decoder INFER default_prepost_processing_fn"
  let ?h = "ex_beam_helper fin"
  from length_2_cases [OF assms(2)] obtain x0 x1 where xs: "inputs u = [x0, x1]" by blast
  from length_2_cases [OF assms(3)] obtain s0 s1 where ss: "decoder_states u = [s0, s1]" by blast
  have rem: "decode_remover ?d = \<lparr>remover_mode = INFER, retained_fields = [''hidden'']\<rparr>"
    by (simp add: decode_remover_def DecoderOutputRemover_init_def ex_defs)
  have w: "ta_write (map Some vs) (int n) out = Inr (map Some (vs @ [out]))" for out :: "nat list"
    using ta_write_next [of vs out] assms(5) by simp
  have wi: "write_infer_status (int n)
           \<lparr>log_probs = map Some a, predicted_ids = map Some p, beam_ids = map Some c,
            lengths = map Some l\<rparr> st
         = Inr \<lparr>log_probs = map Some (a @ [log_probs st]),
                predicted_ids = map Some (p @ [predicted_ids st]),
                beam_ids = map Some (c @ [beam_ids st]),
                lengths = map Some (l @ [lengths st])\<rparr>" for st
    by (rule write_infer_status_next [OF assms(9-12)])
  have lo: "logical_or (fin (int n)) (finished u)
      = Inr (map2 (\<lambda>x y. x \<or> y) (fin (int n)) (finished u))"
    using assms(6,7) by (simp add: logical_or_def)
  let ?nlp = "map2 (+) lp [- 1 / 10, - 2 / 10]"
  let ?nlens = "map (\<lambda>l. l + 1) lens"
  let ?t' = "int32 (int n + 1)"
  let ?u' = "\<lparr>time = ?t', inputs = [nat (3 * 10 + ?t'), nat (4 * 10 + ?t')],
           decoder_states = [s1 + x1, s0 + x0],
           outputs_ta = [(''hidden'', map Some (vs @ [[s0 + x0, s1 + x1]]))],
           finished = map2 (\<lambda>x y. x \<or> y) (fin (int n)) (finished u),
           args = Some (?nlp, ?nlens,
             \<lparr>log_probs = map Some (a @ [?nlp]),
              predicted_ids = map Some (p @ [[3, 4]]),
              beam_ids = map Some (c @ [[1, 0]]),
              lengths = map Some (l @ [?nlens])\<rparr>)\<rparr>"
  have b: "decode_body ?d () () ?h ex_modality u = Inr ?u'"
    unfolding decode_body_def body_traininfer_def rem
    using assms(1,4,8) xs ss
    by (simp add: infer_branch_def remover_apply_def compute_logits_def embed_words_def
        gather_states_def decode_params_def stack_beam_size_def w wi lo ex_defs Let_def)
  show ?thesis
    apply (rule exI [of _ ?u'])
    apply (rule exI [of _ "vs @ [[s0 + x0, s1 + x1]]"])
    apply (rule exI [of _ ?nlp])
    apply (rule exI [of _ ?nlens])
    apply (rule exI [of _ "a @ [?nlp]"])
    apply (rule exI [of _ "p @ [[3, 4]]"])
    apply (rule exI [of _ "c @ [[1, 0]]"])
    apply (rule exI [of _ "l @ [?nlens]"])
    using b assms(5,9-12) by simp
qed

lemma ex_beam_run:
  assumes two: "\<And>t. length (fin t) = 2"
  shows "n \<le> 2 ^ 31 \<Longrightarrow>
         \<exists>u vs lp lens a p c l.
           decode_state (ex_decoder INFER default_prepost_processing_fn) () ()
             (ex_beam_helper fin) ex_modality n = Inr u \<and>
           time u = int32 (int n) \<and> length (inputs u) = 2 \<and> length (decoder_states u) = 2 \<and>
           outputs_ta u = [(''hidden'', map Some vs)] \<and> length vs = n \<and>
           finished u = [\<exists>k<n. fin (int k) ! 0, \<exists>k<n. fin (int k) ! 1] \<and>
           args u = Some (lp, lens, \<lparr>log_probs = map Some a, predicted_ids = map Some p,
                                       beam_ids = map Some c, lengths = map Some l\<rparr>) \<and>
           length a = n \<and> length p = n \<and> length c = n \<and> length l = n"
proof (induction n)
  case 0
  let ?d = "ex_decoder INFER default_prepost_processing_fn"
  let ?v = "decode_init ?d () () (ex_beam_helper fin) ex_modality"
  have i0: "time ?v = int32 (int 0)" "length (inputs ?v) = 2" "length (decoder_states ?v) = 2"
    "outputs_ta ?v = [(''hidden'', map Some [])]" "finished ?v = [False, False]"
    "args ?v = Some ([0, 0], [0, 0],
       \<lparr>log_probs = map Some [], predicted_ids = map Some [], beam_ids = map Some [],
        lengths = map Some []\<rparr>)"
    by (simp_all add: model_defs ex_defs Let_def numeral_2_eq_2)
  show ?case
    unfolding decode_state_0
    apply (rule exI [of _ ?v])
    apply (rule exI [of _ "[]"])
    apply (rule exI [of _ "[0, 0]"])
    apply (rule exI [of _ "[0, 0]"])
    apply (rule exI [of _ "[]"])
    apply (rule exI [of _ "[]"])
    apply (rule exI [of _ "[]"])
    apply (rule exI [of _ "[]"])
    using i0 by simp
next
  case (Suc n)
  let ?d = "ex_decoder INFER default_prepost_processing_fn"
  from Suc.prems have n: "n < 2 ^ 31" "n \<le> 2 ^ 31" by simp_all
  from Suc.IH [OF n(2)] obtain u vs lp lens a p c l where
    st: "decode_state ?d () () (ex_beam_helper fin) ex_modality n = Inr u" and
    t: "time u = int32 (int n)" and
    j: "length (inputs u) = 2" "length (decoder_states u) = 2"
       "outputs_ta u = [(''hidden'', map Some vs)]" "length vs = n" and
    f: "finished u = [\<exists>k<n. fin (int k) ! 0, \<exists>k<n. fin (int k) ! 1]" and
    a: "args u = Some (lp, lens, \<lparr>log_probs = map Some a, predicted_ids = map Some p,
                                    beam_ids = map Some c, lengths = map Some l\<rparr>)" and
    len: "length a = n" "length p = n" "length c = n" "length l = n" by blast
  from t int32_of_nat [OF n(1)] have t': "time u = int n" by simp
  from f have lf: "length (finished u) = 2" by simp
  from length_2_cases [OF two [of "int n"]] obtain x y where fn: "fin (int n) = [x, y]" by blast
  from ex_beam_progress [where fin = fin, OF t' j lf two [of "int n"] a len] show ?case
  proof (elim exE conjE)
    fix u' vs' lp' lens' a' p' c' l'
    assume b: "decode_body ?d () () (ex_beam_helper fin) ex_modality u = Inr u'"
      and j': "length (inputs u') = 2" "length (decoder_states u') = 2"
        "outputs_ta u' = [(''hidden'', map Some vs')]" "length vs' = Suc n"
      and f': "finished u' = map2 (\<lambda>x y. x \<or> y) (fin (int n)) (finished u)"
      and a': "args u' = Some (lp', lens', \<lparr>log_probs = map Some a', predicted_ids = map Some p',
                                        beam_ids = map Some c', lengths = map Some l'\<rparr>)"
      and len': "length a' = Suc n" "length p' = Suc n" "length c' = Suc n" "length l' = Suc n"
    have ff: "finished u' = [\<exists>k<Suc n. fin (int k) ! 0, \<exists>k<Suc n. fin (int k) ! 1]"
      unfolding f' f fn using fn by (auto simp add: less_Suc_eq)
    have ds: "decode_state ?d () () (ex_beam_helper fin) ex_modality (Suc n) = Inr u'"
      by (simp add: decode_state_Suc st b)
    from decode_state_time [OF ds] have tt: "time u' = int32 (int (Suc n))" .
    show ?thesis
      apply (rule exI [of _ u'])
      apply (rule exI [of _ vs'])
      apply (rule exI [of _ lp'])
      apply (rule exI [of _ lens'])
      apply (rule exI [of _ a'])
      apply (rule exI [of _ p'])
      apply (rule exI [of _ c'])
      apply (rule exI [of _ l'])
      using ds tt j' ff a' len' by simp
  qed
qed

lemma ex_beam_negative_time:
  assumes "time u < 0" and "outputs_ta u = [(''hidden'', ta)]"
  shows "decode_body (ex_decoder INFER default_prepost_processing_fn) () ()
           (ex_beam_helper fin) ex_modality u = Inl InvalidArgument"
proof -
  let ?d = "ex_decoder INFER default_prepost_processing_fn"
  have rem: "decode_remover ?d = \<lparr>remover_mode = INFER, retained_fields = [''hidden'']\<rparr>"
    by (simp add: decode_remover_def DecoderOutputRemover_init_def ex_defs)
  have w: "ta_write ta (time u) out = Inl InvalidArgument" for out :: "nat list"
    using assms(1) by (simp add: ta_write_def)
  show ?thesis
    unfolding decode_body_def body_traininfer_def rem
    using assms(2)
    by (simp add: remover_apply_def w ex_defs Let_def)
qed

lemma ex_beam_overflow:
  assumes two: "\<And>t. length (fin t) = 2"
  shows "decode_state (ex_decoder INFER default_prepost_processing_fn) () ()
           (ex_beam_helper fin) ex_modality (Suc (2 ^ 31)) = Inl InvalidArgument"
proof -
  let ?d = "ex_decoder INFER default_prepost_processing_fn"
  from ex_beam_run [where fin = fin, OF two, of "2 ^ 31"] obtain u vs where
    st: "decode_state ?d () () (ex_beam_helper fin) ex_modality (2 ^ 31) = Inr u" and
    t: "time u = int32 (int (2 ^ 31))" and
    o: "outputs_ta u = [(''hidden'', map Some vs)]" by auto
  from t have "time u = - (2 ^ 31)" by (simp add: int32_def)
  then have "time u < 0" by simp
  from ex_beam_negative_time [OF this o]
  have b: "decode_body ?d () () (ex_beam_helper fin) ex_modality u = Inl InvalidArgument" .
  show ?thesis unfolding decode_state_Suc st by (simp only: b sum.case)
qed

lemma ex_beam_never_finished:
  assumes "n \<le> 2 ^ 31"
  shows "\<exists>u. decode_state (ex_decoder INFER default_prepost_processing_fn) () ()
          (ex_beam_helper (\<lambda>t. [False, False])) ex_modality n = Inr u \<and>
        \<not> reduce_all (finished u)"
proof -
  from ex_beam_run [of "\<lambda>t. [False, False]" n] assms obtain u where
    "decode_state (ex_decoder INFER default_prepost_processing_fn) () ()
          (ex_beam_helper (\<lambda>t. [False, False])) ex_modality n = Inr u"
    "finished u = [\<exists>k<n. [False, False] ! 0, \<exists>k<n. [False, False] ! 1]" by auto
  then show ?thesis by (auto simp add: reduce_all_def)
qed

lemma ex_beam_finished_from:
  assumes "0 \<le> m" and "n \<le> 2 ^ 31"
  shows "\<exists>u. decode_state (ex_decoder INFER default_prepost_processing_fn) () ()
          (ex_beam_helper (\<lambda>t. [m \<le> t, m \<le> t])) ex_modality n = Inr u \<and>
        time u = int32 (int n) \<and> finished u = [m < int n, m < int n]"
proof -
  from ex_beam_run [of "\<lambda>t. [m \<le> t, m \<le> t]" n] assms(2) obtain u where
    "decode_state (ex_decoder INFER default_prepost_processing_fn) () ()
          (ex_beam_helper (\<lambda>t. [m \<le> t, m \<le> t])) ex_modality n = Inr u" "time u = int32 (int n)"
    "finished u = [\<exists>k<n. [m \<le> int k, m \<le> int k] ! 0, \<exists>k<n. [m \<le> int k, m \<le> int k] ! 1]"
    by auto
  moreover have "(\<exists>k<n. m \<le> int k) = (m < int n)"
  proof
    assume "\<exists>k<n. m \<le> int k"
    then show "m < int n" by auto
  next
    assume "m < int n"
    with assms(1) have "nat m < n" "m \<le> int (nat m)" by simp_all
    then show "\<exists>k<n. m \<le> int k" by blast
  qed
  ultimately show ?thesis by simp
qed

section \<open>When the loop returns\<close>

lemma decode_state_prefix:
  assumes "decode_state d e b h tm n = Inr v" and "m \<le> n"
  shows "decode_state d e b h tm m = Inr (projr (decode_state d e b h tm m))"
proof -
  from steps_of_prefix [OF assms(1) [unfolded decode_state_def] assms(2)]
  show ?thesis unfolding decode_state_def by auto
qed

lemma decode_loop_Inr_iff:
  "decode_loop d e b h tm = Some (Inr res) \<longleftrightarrow>
     (\<exists>n. decode_state d e b h tm n = Inr res \<and> reduce_all (finished res) \<and>
          (\<forall>m<n. \<exists>u. decode_state d e b h tm m = Inr u \<and> \<not> reduce_all (finished u)))"
  unfolding decode_loop_def decode_state_def while_loop_Inr_iff loop_cond_def by simp

lemma infer_run_bounded:
  assumes m: "mode d = INFER" and st: "decode_state d e b h tm n = Inr u"
  shows "n \<le> 2 ^ 31"
proof (rule ccontr)
  assume "\<not> n \<le> 2 ^ 31"
  then have le: "Suc (2 ^ 31) \<le> n" by simp
  define \<sigma> where "\<sigma> = (\<lambda>t. projr (decode_state d e b h tm t))"
  have run: "\<And>t. t \<le> Suc (2 ^ 31) \<Longrightarrow> decode_state d e b h tm t = Inr (\<sigma> t)"
  proof -
    fix t :: nat assume "t \<le> Suc (2 ^ 31)"
    with le have "t \<le> n" by simp
    from decode_state_prefix [OF st this] show "decode_state d e b h tm t = Inr (\<sigma> t)"
      unfolding \<sigma>_def .
  qed
  have "(2 ^ 31 :: nat) < Suc (2 ^ 31)" by simp
  from run_time_INFER [of "Suc (2 ^ 31)" d e b h tm \<sigma> "2 ^ 31", OF run m this]
  show False by simp
qed

lemma infer_never_finished_fails:
  assumes m: "mode d = INFER"
    and never: "\<forall>n u. decode_state d e b h tm n = Inr u \<longrightarrow> \<not> reduce_all (finished u)"
  shows "\<exists>n err. n \<le> 2 ^ 31 \<and> decode_state d e b h tm (Suc n) = Inl err \<and>
           decode_loop d e b h tm = Some (Inl err)"
proof -
  have ex: "\<exists>k. \<exists>err. decode_state d e b h tm k = Inl err"
  proof (cases "decode_state d e b h tm (Suc (2 ^ 31))")
    case (Inl err)
    then show ?thesis by blast
  next
    case (Inr u)
    from infer_run_bounded [OF m this] show ?thesis by simp
  qed
  define k where "k = (LEAST k. \<exists>err. decode_state d e b h tm k = Inl err)"
  from ex have "\<exists>err. decode_state d e b h tm k = Inl err"
    unfolding k_def by (rule LeastI_ex)
  then obtain err where k: "decode_state d e b h tm k = Inl err" by blast
  have below: "\<And>j. j < k \<Longrightarrow> \<exists>u. decode_state d e b h tm j = Inr u \<and> loop_cond u"
  proof -
    fix j assume "j < k"
    then have "\<not> (\<exists>err. decode_state d e b h tm j = Inl err)"
      unfolding k_def by (rule not_less_Least)
    then obtain u where u: "decode_state d e b h tm j = Inr u"
      by (cases "decode_state d e b h tm j") auto
    with never have "\<not> reduce_all (finished u)" by blast
    with u show "\<exists>u. decode_state d e b h tm j = Inr u \<and> loop_cond u"
      by (simp add: loop_cond_def)
  qed
  have "k \<noteq> 0"
  proof
    assume "k = 0"
    with k show False by (simp add: decode_state_0)
  qed
  then obtain n where kn: "k = Suc n" by (cases k) auto
  have "n < k" using kn by simp
  from below [OF this] obtain u where "decode_state d e b h tm n = Inr u" by blast
  from infer_run_bounded [OF m this] have n: "n \<le> 2 ^ 31" .
  have "decode_loop d e b h tm = Some (Inl err)"
    unfolding decode_loop_def
  proof (rule while_loop_fail [where n = k])
    show "steps_of (decode_body d e b h tm) k (decode_init d e b h tm) = Inl err"
      using k by (simp add: decode_state_def)
    fix j assume "j < k"
    from below [OF this]
    show "\<exists>u. steps_of (decode_body d e b h tm) j (decode_init d e b h tm) = Inr u \<and> loop_cond u"
      by (simp add: decode_state_def)
  qed
  with n k kn show ?thesis by blast
qed

lemma teacher_forced_mask:
  assumes init: "fst (init_symbols h) = map (\<lambda>l. l \<le> 0) lens"
    and nxt: "\<forall>t sids. fst (next_symbols h t sids) = map (\<lambda>l. l \<le> t + 1) lens"
  shows "decode_state d e b h tm n = Inr u \<Longrightarrow> n \<le> 2 ^ 31 \<Longrightarrow>
         finished u = map (\<lambda>l. l \<le> int n) lens"
proof (induction n arbitrary: u)
  case 0
  then have "u = decode_init d e b h tm" by (simp add: decode_state_0)
  then show ?case by (simp add: decode_init_fields init)
next
  case (Suc n)
  from Suc.prems(1) obtain w where w: "decode_state d e b h tm n = Inr w"
    and b: "decode_body d e b h tm w = Inr u"
    by (auto simp add: decode_state_Suc split: sum.splits)
  from Suc.prems(2) have n: "n < 2 ^ 31" "n \<le> 2 ^ 31" by simp_all
  from Suc.IH [OF w n(2)] have fw: "finished w = map (\<lambda>l. l \<le> int n) lens" .
  from decode_state_time [OF w] int32_of_nat [OF n(1)] have tw: "time w = int n" by simp
  from body_finished_or [OF b [unfolded decode_body_def]] obtain sids where
    "logical_or (fst (next_symbols h (time w) sids)) (finished w) = Inr (finished u)" by blast
  then have "logical_or (map (\<lambda>l. l \<le> int n + 1) lens) (map (\<lambda>l. l \<le> int n) lens)
      = Inr (finished u)"
    unfolding tw fw nxt [rule_format] .
  then have "finished u = map2 (\<lambda>x y. x \<or> y) (map (\<lambda>l. l \<le> int n + 1) lens)
      (map (\<lambda>l. l \<le> int n) lens)"
    by (simp add: logical_or_def)
  also have "\<dots> = map (\<lambda>l. l \<le> int (Suc n)) lens"
    by (induction lens) auto
  finally show ?case .
qed

lemma teacher_forced_all_true:
  assumes "lens \<noteq> []"
  shows "reduce_all (map (\<lambda>l. l \<le> int n) lens) \<longleftrightarrow> nat (Max (set lens)) \<le> n"
proof -
  have "reduce_all (map (\<lambda>l. l \<le> int n) lens) \<longleftrightarrow> (\<forall>l\<in>set lens. l \<le> int n)"
    by (simp add: reduce_all_def list_all_iff)
  also have "\<dots> \<longleftrightarrow> Max (set lens) \<le> int n"
    using assms by (simp add: Max_le_iff)
  also have "\<dots> \<longleftrightarrow> nat (Max (set lens)) \<le> n" by (simp add: nat_le_iff)
  finally show ?thesis .
qed

lemma teacher_forced_loop:
  assumes ne: "lens \<noteq> []" and small: "\<forall>l\<in>set lens. l < 2 ^ 31"
    and init: "fst (init_symbols h) = map (\<lambda>l. l \<le> 0) lens"
    and nxt: "\<forall>t sids. fst (next_symbols h t sids) = map (\<lambda>l. l \<le> t + 1) lens"
  shows "decode_loop d e b h tm = Some (Inr res) \<longleftrightarrow>
         decode_state d e b h tm (nat (Max (set lens))) = Inr res"
proof -
  let ?T = "nat (Max (set lens))"
  from ne have "Max (set lens) \<in> set lens" by simp
  with small have "Max (set lens) < 2 ^ 31" by blast
  then have T: "?T \<le> 2 ^ 31" by simp
  note mask = teacher_forced_mask [OF init nxt]
  show ?thesis
  proof
    assume "decode_state d e b h tm ?T = Inr res"
    note st = this
    have "reduce_all (finished res)"
      unfolding mask [OF st T] teacher_forced_all_true [OF ne] by simp
    moreover have "\<forall>m<?T. \<exists>u. decode_state d e b h tm m = Inr u \<and> \<not> reduce_all (finished u)"
    proof (intro allI impI)
      fix m assume m: "m < ?T"
      then have "m \<le> ?T" by simp
      from decode_state_prefix [OF st this] obtain u where
        u: "decode_state d e b h tm m = Inr u" by blast
      from m T have "m \<le> 2 ^ 31" by simp
      from mask [OF u this] m have "\<not> reduce_all (finished u)"
        by (simp add: teacher_forced_all_true [OF ne])
      with u show "\<exists>u. decode_state d e b h tm m = Inr u \<and> \<not> reduce_all (finished u)" by blast
    qed
    ultimately show "decode_loop d e b h tm = Some (Inr res)"
      unfolding decode_loop_Inr_iff using st by blast
  next
    assume "decode_loop d e b h tm = Some (Inr res)"
    then obtain n where st: "decode_state d e b h tm n = Inr res"
      and all: "reduce_all (finished res)"
      and before: "\<forall>m<n. \<exists>u. decode_state d e b h tm m = Inr u \<and> \<not> reduce_all (finished u)"
      unfolding decode_loop_Inr_iff by blast
    have "\<not> n < ?T"
    proof
      assume n: "n < ?T"
      with T have "n \<le> 2 ^ 31" by simp
      from mask [OF st this] all n show False
        by (simp add: teacher_forced_all_true [OF ne])
    qed
    moreover have "\<not> ?T < n"
    proof
      assume "?T < n"
      with before obtain u where u: "decode_state d e b h tm ?T = Inr u"
        and nf: "\<not> reduce_all (finished u)" by blast
      have "reduce_all (map (\<lambda>l. l \<le> int ?T) lens)"
        unfolding teacher_forced_all_true [OF ne] by (rule order_refl)
      with mask [OF u T] nf show False by simp
    qed
    ultimately have "n = ?T" by simp
    with st show "decode_state d e b h tm ?T = Inr res" by simp
  qed
qed

lemma ex_train_run:
  "decode_state (ex_decoder TRAIN ex_hooks) () () (ex_train_helper (\<lambda>t. 2 \<le> t)) ex_modality 3
     = Inr \<lparr>time = 3, inputs = [109], decoder_states = [210],
            outputs_ta = [(''hidden'', [Some [111], Some [144], Some [210]]),
                          (''attention'', [Some [11], Some [33], Some [66]])],
            finished = [True], args = None\<rparr>"
proof -
  let ?st = "decode_state (ex_decoder TRAIN ex_hooks) () () (ex_train_helper (\<lambda>t. 2 \<le> t)) ex_modality"
  have s0: "?st 0 = Inr \<lparr>time = 0, inputs = [10], decoder_states = [100],
         outputs_ta = [(''hidden'', []), (''attention'', [])],
         finished = [False], args = None\<rparr>"
    by (simp add: decode_state_def model_defs ex_defs Let_def)
  have s1: "?st 1 = Inr \<lparr>time = 1, inputs = [32], decoder_states = [111],
         outputs_ta = [(''hidden'', [Some [111]]), (''attention'', [Some [11]])],
         finished = [False], args = None\<rparr>"
    unfolding One_nat_def decode_state_Suc s0
    by (simp add: model_defs ex_defs Let_def)
  have s2: "?st 2 = Inr \<lparr>time = 2, inputs = [65], decoder_states = [144],
         outputs_ta = [(''hidden'', [Some [111], Some [144]]),
                       (''attention'', [Some [11], Some [33]])],
         finished = [False], args = None\<rparr>"
    using s1 unfolding numeral_2_eq_2 One_nat_def decode_state_Suc [of _ _ _ _ _ "Suc 0"]
    by (simp add: model_defs ex_defs Let_def)
  show ?thesis
    using s2 unfolding numeral_3_eq_3 numeral_2_eq_2 decode_state_Suc [of _ _ _ _ _ "Suc (Suc 0)"]
    by (simp add: model_defs ex_defs Let_def)
qed

text \<open>
  Claim C3, as amended. The loop of \<^verbatim>\<open>dynamic_decode\<close> returns loop variables exactly
  when some number of steps, all of which succeed, reaches a finished mask that is all
  true, every earlier mask being not all true: in inference mode and in teacher-forced
  mode alike the mask is the only thing that the loop condition reads. The exhaustion of
  the driving input sequence reaches the loop as the mask of the feedback policy: for a
  policy that reports a lane finished once \<open>time + 1\<close> reaches the target length of the
  lane, the loop returns exactly the loop variables after as many steps as the longest
  target length. An inference decode whose mask is never all true never returns a
  result, and it does not run forever either: the driver has no iteration cap of its
  own, and the decode ends with the error of the first step that fails, which is the
  step number \<open>2^31\<close> at the latest, where the \<^verbatim>\<open>int32\<close> time has wrapped around to a
  negative index of the buffers.
\<close>

theorem loop_returns_iff_all_finished:
  "(\<forall>res. decode_loop d e b h tm = Some (Inr res) \<longleftrightarrow>
       (\<exists>n. decode_state d e b h tm n = Inr res \<and> reduce_all (finished res) \<and>
            (\<forall>m<n. \<exists>u. decode_state d e b h tm m = Inr u \<and> \<not> reduce_all (finished u)))) \<and>
   (lens \<noteq> [] \<longrightarrow> (\<forall>l\<in>set lens. l < 2 ^ 31) \<longrightarrow>
    fst (init_symbols h) = map (\<lambda>l. l \<le> 0) lens \<longrightarrow>
    (\<forall>t sids. fst (next_symbols h t sids) = map (\<lambda>l. l \<le> t + 1) lens) \<longrightarrow>
      (\<forall>res. decode_loop d e b h tm = Some (Inr res) \<longleftrightarrow>
             decode_state d e b h tm (nat (Max (set lens))) = Inr res)) \<and>
   (mode d = INFER \<longrightarrow>
    (\<forall>n u. decode_state d e b h tm n = Inr u \<longrightarrow> \<not> reduce_all (finished u)) \<longrightarrow>
      (\<exists>n err. n \<le> 2 ^ 31 \<and> decode_state d e b h tm (Suc n) = Inl err \<and>
               decode_loop d e b h tm = Some (Inl err) \<and>
               dynamic_decode d e b h tm = Some (Inl err)))"
proof (intro conjI allI impI)
  fix res
  show "decode_loop d e b h tm = Some (Inr res) \<longleftrightarrow>
       (\<exists>n. decode_state d e b h tm n = Inr res \<and> reduce_all (finished res) \<and>
            (\<forall>m<n. \<exists>u. decode_state d e b h tm m = Inr u \<and> \<not> reduce_all (finished u)))"
    by (rule decode_loop_Inr_iff)
next
  fix res
  assume "lens \<noteq> []" and "\<forall>l\<in>set lens. l < 2 ^ 31"
    and "fst (init_symbols h) = map (\<lambda>l. l \<le> 0) lens"
    and "\<forall>t sids. fst (next_symbols h t sids) = map (\<lambda>l. l \<le> t + 1) lens"
  then show "decode_loop d e b h tm = Some (Inr res) \<longleftrightarrow>
             decode_state d e b h tm (nat (Max (set lens))) = Inr res"
    by (rule teacher_forced_loop)
next
  assume m: "mode d = INFER"
    and never: "\<forall>n u. decode_state d e b h tm n = Inr u \<longrightarrow> \<not> reduce_all (finished u)"
  from infer_never_finished_fails [OF m never] obtain n err where
    "n \<le> 2 ^ 31" "decode_state d e b h tm (Suc n) = Inl err"
    "decode_loop d e b h tm = Some (Inl err)" by blast
  moreover from this(3) have "dynamic_decode d e b h tm = Some (Inl err)"
    by (simp add: dynamic_decode_eq)
  ultimately show "\<exists>n err. n \<le> 2 ^ 31 \<and> decode_state d e b h tm (Suc n) = Inl err \<and>
               decode_loop d e b h tm = Some (Inl err) \<and>
               dynamic_decode d e b h tm = Some (Inl err)" by blast
qed

theorem loop_returns_iff_all_finished_witness:
  "(\<exists>res. decode_loop (ex_decoder INFER default_prepost_processing_fn) () ()
            (ex_beam_helper (\<lambda>t. [3 \<le> t, 3 \<le> t])) ex_modality = Some (Inr res) \<and>
          time res = 4 \<and> finished res = [True, True]) \<and>
   decode_loop (ex_decoder TRAIN ex_hooks) () () (ex_train_helper (\<lambda>t. 2 \<le> t)) ex_modality
     = Some (Inr \<lparr>time = 3, inputs = [109], decoder_states = [210],
                  outputs_ta = [(''hidden'', [Some [111], Some [144], Some [210]]),
                                (''attention'', [Some [11], Some [33], Some [66]])],
                  finished = [True], args = None\<rparr>) \<and>
   (\<exists>n err. n \<le> (2 ^ 31 :: nat) \<and>
      decode_loop (ex_decoder INFER default_prepost_processing_fn) () ()
        (ex_beam_helper (\<lambda>t. [False, False])) ex_modality = Some (Inl err) \<and>
      dynamic_decode (ex_decoder INFER default_prepost_processing_fn) () ()
        (ex_beam_helper (\<lambda>t. [False, False])) ex_modality = Some (Inl err))"
proof -
  let ?d = "ex_decoder INFER default_prepost_processing_fn"
  let ?h = "ex_beam_helper (\<lambda>t. [3 \<le> t, 3 \<le> t])"
  have four: "(4::nat) \<le> 2 ^ 31" by simp
  from ex_beam_finished_from [of 3 4] four obtain res where
    r: "decode_state ?d () () ?h ex_modality 4 = Inr res" "time res = int32 (int 4)"
       "finished res = [True, True]" by auto
  have before: "\<forall>m<4. \<exists>u. decode_state ?d () () ?h ex_modality m = Inr u \<and> \<not> reduce_all (finished u)"
  proof (intro allI impI)
    fix m :: nat assume m: "m < 4"
    then have "m \<le> 2 ^ 31" by simp
    from ex_beam_finished_from [of 3 m, OF _ this] obtain u where
      "decode_state ?d () () ?h ex_modality m = Inr u" "finished u = [3 < int m, 3 < int m]" by auto
    with m show "\<exists>u. decode_state ?d () () ?h ex_modality m = Inr u \<and> \<not> reduce_all (finished u)"
      by (auto simp add: reduce_all_def)
  qed
  have "decode_loop ?d () () ?h ex_modality = Some (Inr res)"
    unfolding loop_returns_iff_all_finished [of ?d "()" "()" ?h ex_modality "[]",
        THEN conjunct1, rule_format]
    using r before by (intro exI [of _ 4]) (simp add: reduce_all_def)
  moreover from r(2) have "time res = 4" by (simp add: int32_def)
  ultimately have one: "\<exists>res. decode_loop ?d () () ?h ex_modality = Some (Inr res) \<and>
          time res = 4 \<and> finished res = [True, True]" using r(3) by blast
  let ?dt = "ex_decoder TRAIN ex_hooks"
  let ?ht = "ex_train_helper (\<lambda>t. 2 \<le> t)"
  have i: "fst (init_symbols ?ht) = map (\<lambda>l. l \<le> 0) [3::int]" by (simp add: ex_defs)
  have nx: "\<forall>t sids. fst (next_symbols ?ht t sids) = map (\<lambda>l. l \<le> t + 1) [3::int]"
    by (auto simp add: ex_defs)
  have ne: "[3::int] \<noteq> []" by simp
  have sm: "\<forall>l\<in>set [3::int]. l < 2 ^ 31" by simp
  have T: "nat (Max (set [3::int])) = 3" by simp
  note c2 = loop_returns_iff_all_finished [of ?dt "()" "()" ?ht ex_modality "[3]",
      THEN conjunct2, THEN conjunct1]
  from c2 ne sm i nx have tf: "\<forall>res. decode_loop ?dt () () ?ht ex_modality = Some (Inr res) \<longleftrightarrow>
      decode_state ?dt () () ?ht ex_modality (nat (Max (set [3::int]))) = Inr res"
    by blast
  have st3: "decode_state ?dt () () ?ht ex_modality (nat (Max (set [3::int])))
     = Inr \<lparr>time = 3, inputs = [109], decoder_states = [210],
            outputs_ta = [(''hidden'', [Some [111], Some [144], Some [210]]),
                          (''attention'', [Some [11], Some [33], Some [66]])],
            finished = [True], args = None\<rparr>"
    unfolding T by (rule ex_train_run)
  from tf st3 have two: "decode_loop ?dt () () ?ht ex_modality
     = Some (Inr \<lparr>time = 3, inputs = [109], decoder_states = [210],
                  outputs_ta = [(''hidden'', [Some [111], Some [144], Some [210]]),
                                (''attention'', [Some [11], Some [33], Some [66]])],
                  finished = [True], args = None\<rparr>)"
    by blast
  let ?hn = "ex_beam_helper (\<lambda>t. [False, False])"
  have m: "mode ?d = INFER" by (simp add: ex_defs)
  have never: "\<forall>n u. decode_state ?d () () ?hn ex_modality n = Inr u \<longrightarrow> \<not> reduce_all (finished u)"
  proof (intro allI impI)
    fix n u assume u: "decode_state ?d () () ?hn ex_modality n = Inr u"
    from infer_run_bounded [OF m u] have "n \<le> 2 ^ 31" .
    from ex_beam_never_finished [OF this] u show "\<not> reduce_all (finished u)" by auto
  qed
  note c3 = loop_returns_iff_all_finished [of ?d "()" "()" ?hn ex_modality "[]",
      THEN conjunct2, THEN conjunct2]
  from c3 m never
  have three: "\<exists>n err. n \<le> (2 ^ 31 :: nat) \<and>
      decode_loop ?d () () ?hn ex_modality = Some (Inl err) \<and>
      dynamic_decode ?d () () ?hn ex_modality = Some (Inl err)" by blast
  from one two three show ?thesis by (intro conjI)
qed

text \<open>
  Claim C3 as stated fails. The beam helper that never reports a lane finished keeps the
  mask not all true, and the inference decode with it terminates all the same: after
  \<open>2^31\<close> steps the time is \<open>-2^31\<close>, the write of the next step is refused, and the
  decode ends with that error.
\<close>

theorem loop_returns_iff_all_finished_counterexample:
  "\<not> reduce_all (fst (init_symbols (ex_beam_helper (\<lambda>t. [False, False])))) \<and>
   (\<forall>t sids. \<not> reduce_all (fst (next_symbols (ex_beam_helper (\<lambda>t. [False, False])) t sids))) \<and>
   decode_state (ex_decoder INFER default_prepost_processing_fn) () ()
     (ex_beam_helper (\<lambda>t. [False, False])) ex_modality (Suc (2 ^ 31)) = Inl InvalidArgument \<and>
   decode_loop (ex_decoder INFER default_prepost_processing_fn) () ()
     (ex_beam_helper (\<lambda>t. [False, False])) ex_modality = Some (Inl InvalidArgument) \<and>
   dynamic_decode (ex_decoder INFER default_prepost_processing_fn) () ()
     (ex_beam_helper (\<lambda>t. [False, False])) ex_modality = Some (Inl InvalidArgument)"
proof -
  let ?d = "ex_decoder INFER default_prepost_processing_fn"
  let ?h = "ex_beam_helper (\<lambda>t. [False, False])"
  have i: "\<not> reduce_all (fst (init_symbols ?h))" by (simp add: ex_defs reduce_all_def)
  have f: "\<forall>t sids. \<not> reduce_all (fst (next_symbols ?h t sids))"
    by (simp add: ex_defs reduce_all_def)
  have ov: "decode_state ?d () () ?h ex_modality (Suc (2 ^ 31)) = Inl InvalidArgument"
    by (rule ex_beam_overflow) simp
  have l: "decode_loop ?d () () ?h ex_modality = Some (Inl InvalidArgument)"
    unfolding decode_loop_def
  proof (rule while_loop_fail [where n = "Suc (2 ^ 31)"])
    show "steps_of (decode_body ?d () () ?h ex_modality) (Suc (2 ^ 31))
        (decode_init ?d () () ?h ex_modality) = Inl InvalidArgument"
      using ov unfolding decode_state_def .
    fix j :: nat assume "j < Suc (2 ^ 31)"
    then have "j \<le> 2 ^ 31" by simp
    from ex_beam_never_finished [OF this]
    show "\<exists>u. steps_of (decode_body ?d () () ?h ex_modality) j
        (decode_init ?d () () ?h ex_modality) = Inr u \<and> loop_cond u"
      by (simp add: decode_state_def loop_cond_def)
  qed
  then have dd: "dynamic_decode ?d () () ?h ex_modality = Some (Inl InvalidArgument)"
    by (simp add: dynamic_decode_eq)
  from i f ov l dd show ?thesis by (intro conjI)
qed







section \<open>The accumulated log-probabilities\<close>



lemma lt_5_cases: "t < (5::nat) \<Longrightarrow> t = 0 \<or> t = 1 \<or> t = 2 \<or> t = 3 \<or> t = 4"
  by arith



end
